theory Spec2Isabelle
  imports Main "HOL-Library.Word" "HOL-Library.Multiset"
begin

section \<open>Strings\<close>

text \<open>
  A JavaScript string is a sequence of UTF-16 code units. ASCII literals of the script are
  written with \<open>ascii\<close>; the Azerbaijani letters of its messages are given as code units.
\<close>

type_synonym js_string = "16 word list"

definition ascii :: "string \<Rightarrow> js_string" where
  "ascii s = map of_char s"

definition is_digit :: "16 word \<Rightarrow> bool" where
  "is_digit c = (0x30 \<le> c \<and> c \<le> 0x39)"

text \<open>
  Number-to-string conversion of an integral Number, as a template literal applies it to
  \<open>Date.now()\<close>: the decimal digits, with a minus sign for a negative value. (A time
  value is an integer of magnitude at most 8.64e15, so the exponent notation of larger
  numbers never occurs.)
\<close>

fun digits :: "nat \<Rightarrow> js_string" where
  "digits n = (if n < 10 then [of_nat (48 + n)] else digits (n div 10) @ [of_nat (48 + n mod 10)])"

definition number_to_string :: "int \<Rightarrow> js_string" where
  "number_to_string i = (if i < 0 then 0x2D # digits (nat (- i)) else digits (nat i))"

text \<open>Reading a run of decimal digits back; \<open>None\<close> when a code unit is not a digit.\<close>

fun number_of_digits :: "nat \<Rightarrow> js_string \<Rightarrow> nat option" where
  "number_of_digits acc [] = Some acc"
| "number_of_digits acc (c # cs) =
     (if is_digit c then number_of_digits (10 * acc + (unat c - 48)) cs else None)"

section \<open>JSON text\<close>

text \<open>
  \<open>JSON.stringify\<close> and \<open>JSON.parse\<close> belong to the platform. They are modelled on the text:
  a value is serialised without indentation, a string is quoted as \<open>QuoteJSONString\<close> of
  ECMAScript quotes it (short escapes, \<open>\uXXXX\<close> for the other control characters and for
  lone surrogates, surrogate pairs left as they are), and the parser reads the JSON grammar.
  A number is kept as its literal; the application state holds none.
\<close>

datatype json =
    JNull
  | JBool bool
  | JNumber js_string
  | JString js_string
  | JArray "json list"
  | JObject "(js_string \<times> json) list"

definition is_high_surrogate :: "16 word \<Rightarrow> bool" where
  "is_high_surrogate c = (0xD800 \<le> c \<and> c \<le> 0xDBFF)"

definition is_low_surrogate :: "16 word \<Rightarrow> bool" where
  "is_low_surrogate c = (0xDC00 \<le> c \<and> c \<le> 0xDFFF)"

definition hex_digit :: "nat \<Rightarrow> 16 word" where
  "hex_digit d = (if d < 10 then of_nat (48 + d) else of_nat (87 + d))"

definition UnicodeEscape :: "16 word \<Rightarrow> js_string" where
  "UnicodeEscape c =
     [0x5C, 0x75, hex_digit (unat c div 4096), hex_digit (unat c div 256 mod 16),
      hex_digit (unat c div 16 mod 16), hex_digit (unat c mod 16)]"

definition quote_unit :: "16 word \<Rightarrow> js_string" where
  "quote_unit c =
     (if c = 0x08 then [0x5C, 0x62]
      else if c = 0x09 then [0x5C, 0x74]
      else if c = 0x0A then [0x5C, 0x6E]
      else if c = 0x0C then [0x5C, 0x66]
      else if c = 0x0D then [0x5C, 0x72]
      else if c = 0x22 then [0x5C, 0x22]
      else if c = 0x5C then [0x5C, 0x5C]
      else if c < 0x20 \<or> is_high_surrogate c \<or> is_low_surrogate c then UnicodeEscape c
      else [c])"

fun quote_body :: "js_string \<Rightarrow> js_string" where
  "quote_body [] = []"
| "quote_body [c] = quote_unit c"
| "quote_body (c # d # cs) =
     (if is_high_surrogate c \<and> is_low_surrogate d then c # d # quote_body cs
      else quote_unit c @ quote_body (d # cs))"

definition QuoteJSONString :: "js_string \<Rightarrow> js_string" where
  "QuoteJSONString s = 0x22 # quote_body s @ [0x22]"

fun JSON_stringify :: "json \<Rightarrow> js_string"
  and stringify_elements :: "json list \<Rightarrow> js_string"
  and stringify_members :: "(js_string \<times> json) list \<Rightarrow> js_string" where
  "JSON_stringify JNull = ascii ''null''"
| "JSON_stringify (JBool b) = (if b then ascii ''true'' else ascii ''false'')"
| "JSON_stringify (JNumber n) = n"
| "JSON_stringify (JString s) = QuoteJSONString s"
| "JSON_stringify (JArray vs) = 0x5B # stringify_elements vs"
| "JSON_stringify (JObject ms) = 0x7B # stringify_members ms"
| "stringify_elements [] = [0x5D]"
| "stringify_elements (v # vs) =
     JSON_stringify v @ (if vs = [] then [0x5D] else 0x2C # stringify_elements vs)"
| "stringify_members [] = [0x7D]"
| "stringify_members ((k, v) # ms) =
     QuoteJSONString k @ 0x3A # JSON_stringify v @
     (if ms = [] then [0x7D] else 0x2C # stringify_members ms)"

subsection \<open>The parser\<close>

definition unhex_digit :: "16 word \<Rightarrow> nat option" where
  "unhex_digit c =
     (let n = unat c in
      if 48 \<le> n \<and> n \<le> 57 then Some (n - 48)
      else if 97 \<le> n \<and> n \<le> 102 then Some (n - 87)
      else if 65 \<le> n \<and> n \<le> 70 then Some (n - 55)
      else None)"

definition unhex4 :: "16 word \<Rightarrow> 16 word \<Rightarrow> 16 word \<Rightarrow> 16 word \<Rightarrow> 16 word option" where
  "unhex4 a b c d =
     (case (unhex_digit a, unhex_digit b, unhex_digit c, unhex_digit d) of
        (Some x, Some y, Some z, Some w) \<Rightarrow> Some (of_nat (x * 4096 + y * 256 + z * 16 + w))
      | _ \<Rightarrow> None)"

definition unescape :: "16 word \<Rightarrow> 16 word option" where
  "unescape e =
     (if e = 0x22 then Some 0x22
      else if e = 0x5C then Some 0x5C
      else if e = 0x2F then Some 0x2F
      else if e = 0x62 then Some 0x08
      else if e = 0x66 then Some 0x0C
      else if e = 0x6E then Some 0x0A
      else if e = 0x72 then Some 0x0D
      else if e = 0x74 then Some 0x09
      else None)"

definition cons_result :: "'a \<Rightarrow> ('a list \<times> 'b) option \<Rightarrow> ('a list \<times> 'b) option" where
  "cons_result x r = (case r of None \<Rightarrow> None | Some (xs, rest) \<Rightarrow> Some (x # xs, rest))"

text \<open>The characters of a string after its opening quote, up to the closing one.\<close>

fun parse_string_body :: "js_string \<Rightarrow> (js_string \<times> js_string) option" where
  "parse_string_body [] = None"
| "parse_string_body (c # cs) =
     (if c = 0x22 then Some ([], cs)
      else if c = 0x5C then
        (case cs of
           [] \<Rightarrow> None
         | e # r \<Rightarrow>
             if e = 0x75 then
               (case r of
                  h1 # h2 # h3 # h4 # r' \<Rightarrow>
                    (case unhex4 h1 h2 h3 h4 of
                       None \<Rightarrow> None
                     | Some u \<Rightarrow> cons_result u (parse_string_body r'))
                | _ \<Rightarrow> None)
             else
               (case unescape e of
                  None \<Rightarrow> None
                | Some u \<Rightarrow> cons_result u (parse_string_body r)))
      else if c < 0x20 then None
      else cons_result c (parse_string_body cs))"

definition is_ws :: "16 word \<Rightarrow> bool" where
  "is_ws c = (c = 0x20 \<or> c = 0x09 \<or> c = 0x0A \<or> c = 0x0D)"

fun skip_ws :: "js_string \<Rightarrow> js_string" where
  "skip_ws [] = []"
| "skip_ws (c # cs) = (if is_ws c then skip_ws cs else c # cs)"

fun take_digits :: "js_string \<Rightarrow> js_string \<times> js_string" where
  "take_digits [] = ([], [])"
| "take_digits (c # cs) =
     (if is_digit c then (case take_digits cs of (ds, r) \<Rightarrow> (c # ds, r)) else ([], c # cs))"

definition parse_int_part :: "js_string \<Rightarrow> (js_string \<times> js_string) option" where
  "parse_int_part s =
     (case s of
        [] \<Rightarrow> None
      | c # cs \<Rightarrow>
          if c = 0x30 then Some ([c], cs)
          else if is_digit c then (case take_digits cs of (ds, r) \<Rightarrow> Some (c # ds, r))
          else None)"

definition parse_frac_part :: "js_string \<Rightarrow> (js_string \<times> js_string) option" where
  "parse_frac_part s =
     (case s of
        [] \<Rightarrow> Some ([], [])
      | c # cs \<Rightarrow>
          if c = 0x2E then
            (case take_digits cs of (ds, r) \<Rightarrow> if ds = [] then None else Some (c # ds, r))
          else Some ([], s))"

definition parse_exp_part :: "js_string \<Rightarrow> (js_string \<times> js_string) option" where
  "parse_exp_part s =
     (case s of
        [] \<Rightarrow> Some ([], [])
      | c # cs \<Rightarrow>
          if c = 0x65 \<or> c = 0x45 then
            (case cs of
               [] \<Rightarrow> None
             | d # r \<Rightarrow>
                 if d = 0x2B \<or> d = 0x2D then
                   (case take_digits r of (ds, r') \<Rightarrow>
                      if ds = [] then None else Some (c # d # ds, r'))
                 else
                   (case take_digits cs of (ds, r') \<Rightarrow>
                      if ds = [] then None else Some (c # ds, r')))
          else Some ([], s))"

definition parse_number :: "js_string \<Rightarrow> (json \<times> js_string) option" where
  "parse_number s =
     (case (case s of [] \<Rightarrow> ([], s) | c # cs \<Rightarrow> if c = 0x2D then ([c], cs) else ([], s)) of
        (sign, s1) \<Rightarrow>
          (case parse_int_part s1 of
             None \<Rightarrow> None
           | Some (i, s2) \<Rightarrow>
               (case parse_frac_part s2 of
                  None \<Rightarrow> None
                | Some (f, s3) \<Rightarrow>
                    (case parse_exp_part s3 of
                       None \<Rightarrow> None
                     | Some (e, s4) \<Rightarrow> Some (JNumber (sign @ i @ f @ e), s4)))))"

definition strip_prefix :: "js_string \<Rightarrow> js_string \<Rightarrow> js_string option" where
  "strip_prefix p s = (if take (length p) s = p then Some (drop (length p) s) else None)"

definition parse_literal :: "js_string \<Rightarrow> (json \<times> js_string) option" where
  "parse_literal s =
     (case strip_prefix (ascii ''true'') s of
        Some r \<Rightarrow> Some (JBool True, r)
      | None \<Rightarrow>
          (case strip_prefix (ascii ''false'') s of
             Some r \<Rightarrow> Some (JBool False, r)
           | None \<Rightarrow>
               (case strip_prefix (ascii ''null'') s of
                  Some r \<Rightarrow> Some (JNull, r)
                | None \<Rightarrow> parse_number s)))"

text \<open>
  Recursive descent. The first argument bounds the depth of the recursion; \<open>JSON_parse\<close>
  starts it with the length of the text, and every text written by \<open>JSON_stringify\<close> for a
  state is proved below to be read back within that bound. \<open>None\<close> is the \<open>SyntaxError\<close>
  that \<open>JSON.parse\<close> throws.
\<close>

fun parse_value :: "nat \<Rightarrow> js_string \<Rightarrow> (json \<times> js_string) option"
  and parse_elements :: "nat \<Rightarrow> js_string \<Rightarrow> (json list \<times> js_string) option"
  and parse_members :: "nat \<Rightarrow> js_string \<Rightarrow> ((js_string \<times> json) list \<times> js_string) option" where
  "parse_value 0 s = None"
| "parse_value (Suc n) s =
     (case skip_ws s of
        [] \<Rightarrow> None
      | c # r \<Rightarrow>
          if c = 0x22 then
            (case parse_string_body r of
               None \<Rightarrow> None
             | Some (str, r') \<Rightarrow> Some (JString str, r'))
          else if c = 0x5B then
            (case skip_ws r of
               [] \<Rightarrow> None
             | d # r' \<Rightarrow>
                 if d = 0x5D then Some (JArray [], r')
                 else (case parse_elements n (d # r') of
                         None \<Rightarrow> None
                       | Some (vs, r'') \<Rightarrow> Some (JArray vs, r'')))
          else if c = 0x7B then
            (case skip_ws r of
               [] \<Rightarrow> None
             | d # r' \<Rightarrow>
                 if d = 0x7D then Some (JObject [], r')
                 else (case parse_members n (d # r') of
                         None \<Rightarrow> None
                       | Some (ms, r'') \<Rightarrow> Some (JObject ms, r'')))
          else parse_literal (c # r))"
| "parse_elements 0 s = None"
| "parse_elements (Suc n) s =
     (case parse_value n s of
        None \<Rightarrow> None
      | Some (v, r) \<Rightarrow>
          (case skip_ws r of
             [] \<Rightarrow> None
           | c # r' \<Rightarrow>
               if c = 0x2C then cons_result v (parse_elements n r')
               else if c = 0x5D then Some ([v], r')
               else None))"
| "parse_members 0 s = None"
| "parse_members (Suc n) s =
     (case skip_ws s of
        [] \<Rightarrow> None
      | q # r \<Rightarrow>
          if q = 0x22 then
            (case parse_string_body r of
               None \<Rightarrow> None
             | Some (k, r1) \<Rightarrow>
                 (case skip_ws r1 of
                    [] \<Rightarrow> None
                  | c # r2 \<Rightarrow>
                      if c = 0x3A then
                        (case parse_value n r2 of
                           None \<Rightarrow> None
                         | Some (v, r3) \<Rightarrow>
                             (case skip_ws r3 of
                                [] \<Rightarrow> None
                              | d # r4 \<Rightarrow>
                                  if d = 0x2C then cons_result (k, v) (parse_members n r4)
                                  else if d = 0x7D then Some ([(k, v)], r4)
                                  else None))
                      else None))
          else None)"

definition JSON_parse :: "js_string \<Rightarrow> json option" where
  "JSON_parse s =
     (case parse_value (length s) s of
        None \<Rightarrow> None
      | Some (v, rest) \<Rightarrow> if skip_ws rest = [] then Some v else None)"

text \<open>Values without a number literal: the shape every serialised application state has.\<close>

fun number_free :: "json \<Rightarrow> bool"
  and number_free_elements :: "json list \<Rightarrow> bool"
  and number_free_members :: "(js_string \<times> json) list \<Rightarrow> bool" where
  "number_free JNull = True"
| "number_free (JBool b) = True"
| "number_free (JNumber n) = False"
| "number_free (JString s) = True"
| "number_free (JArray vs) = number_free_elements vs"
| "number_free (JObject ms) = number_free_members ms"
| "number_free_elements [] = True"
| "number_free_elements (v # vs) = (number_free v \<and> number_free_elements vs)"
| "number_free_members [] = True"
| "number_free_members ((k, v) # ms) = (number_free v \<and> number_free_members ms)"

definition value_start :: "16 word \<Rightarrow> bool" where
  "value_start c = (c = 0x22 \<or> c = 0x5B \<or> c = 0x7B \<or> c = 0x74 \<or> c = 0x66 \<or> c = 0x6E)"

section \<open>Data model\<close>

datatype yes_no = Yes | No

datatype honey_level = Good | Sufficient | Low

record InspectionReport =
  report_id :: js_string
  date :: js_string
  queen :: yes_no
  disease :: yes_no
  eggs :: yes_no
  honeyStores :: honey_level
  feeding :: yes_no
  feedingAmount :: "js_string option"
  report_notes :: "js_string option"

record Hive =
  hive_id :: js_string
  name :: js_string
  location :: js_string
  reports :: "InspectionReport list"

record AppState =
  hives :: "Hive list"

subsection \<open>The state as a JavaScript value\<close>

text \<open>
  The object that a record stands for, with its properties in the order in which the object
  literals of \<open>handleAddHive\<close> and \<open>handleAddInspection\<close> create them; an optional property
  that is undefined is left out, as \<open>JSON.stringify\<close> leaves it out.
\<close>

definition yes_no_string :: "yes_no \<Rightarrow> js_string" where
  "yes_no_string v = (case v of Yes \<Rightarrow> ascii ''yes'' | No \<Rightarrow> ascii ''no'')"

definition honey_level_string :: "honey_level \<Rightarrow> js_string" where
  "honey_level_string v =
     (case v of Good \<Rightarrow> ascii ''good'' | Sufficient \<Rightarrow> ascii ''sufficient'' | Low \<Rightarrow> ascii ''low'')"

definition optional_member :: "js_string \<Rightarrow> js_string option \<Rightarrow> (js_string \<times> json) list" where
  "optional_member k v = (case v of None \<Rightarrow> [] | Some s \<Rightarrow> [(k, JString s)])"

definition encode_report :: "InspectionReport \<Rightarrow> json" where
  "encode_report r =
     JObject
       ([(ascii ''id'', JString (report_id r)),
         (ascii ''date'', JString (date r)),
         (ascii ''queen'', JString (yes_no_string (queen r))),
         (ascii ''disease'', JString (yes_no_string (disease r))),
         (ascii ''eggs'', JString (yes_no_string (eggs r))),
         (ascii ''honeyStores'', JString (honey_level_string (honeyStores r))),
         (ascii ''feeding'', JString (yes_no_string (feeding r)))]
        @ optional_member (ascii ''feedingAmount'') (feedingAmount r)
        @ optional_member (ascii ''notes'') (report_notes r))"

definition encode_hive :: "Hive \<Rightarrow> json" where
  "encode_hive h =
     JObject
       [(ascii ''id'', JString (hive_id h)),
        (ascii ''name'', JString (name h)),
        (ascii ''location'', JString (location h)),
        (ascii ''reports'', JArray (map encode_report (reports h)))]"

definition encode_state :: "AppState \<Rightarrow> json" where
  "encode_state st = JObject [(ascii ''hives'', JArray (map encode_hive (hives st)))]"

text \<open>
  Reading a parsed value as an application state. \<open>loadStateFromLocalStorage\<close> assigns
  whatever \<open>JSON.parse\<close> returns, unchecked; a value that has not the shape of the
  interfaces has no counterpart in the records, and decoding it gives \<open>None\<close>. A property
  written twice in the text has its last value.
\<close>

definition get_property :: "(js_string \<times> json) list \<Rightarrow> js_string \<Rightarrow> json option" where
  "get_property ms k = map_of (rev ms) k"

definition string_property :: "(js_string \<times> json) list \<Rightarrow> js_string \<Rightarrow> js_string option" where
  "string_property ms k = (case get_property ms k of Some (JString s) \<Rightarrow> Some s | _ \<Rightarrow> None)"

definition optional_string_property ::
  "(js_string \<times> json) list \<Rightarrow> js_string \<Rightarrow> js_string option option" where
  "optional_string_property ms k =
     (case get_property ms k of
        None \<Rightarrow> Some None
      | Some (JString s) \<Rightarrow> Some (Some s)
      | Some _ \<Rightarrow> None)"

definition decode_yes_no :: "js_string \<Rightarrow> yes_no option" where
  "decode_yes_no s =
     (if s = ascii ''yes'' then Some Yes else if s = ascii ''no'' then Some No else None)"

definition decode_honey_level :: "js_string \<Rightarrow> honey_level option" where
  "decode_honey_level s =
     (if s = ascii ''good'' then Some Good
      else if s = ascii ''sufficient'' then Some Sufficient
      else if s = ascii ''low'' then Some Low
      else None)"

fun decode_all :: "('a \<Rightarrow> 'b option) \<Rightarrow> 'a list \<Rightarrow> 'b list option" where
  "decode_all f [] = Some []"
| "decode_all f (x # xs) =
     (case f x of
        None \<Rightarrow> None
      | Some y \<Rightarrow> (case decode_all f xs of None \<Rightarrow> None | Some ys \<Rightarrow> Some (y # ys)))"

definition decode_report :: "json \<Rightarrow> InspectionReport option" where
  "decode_report j =
     (case j of
        JObject ms \<Rightarrow>
          Option.bind (string_property ms (ascii ''id'')) (\<lambda>i.
          Option.bind (string_property ms (ascii ''date'')) (\<lambda>d.
          Option.bind (Option.bind (string_property ms (ascii ''queen'')) decode_yes_no) (\<lambda>q.
          Option.bind (Option.bind (string_property ms (ascii ''disease'')) decode_yes_no) (\<lambda>di.
          Option.bind (Option.bind (string_property ms (ascii ''eggs'')) decode_yes_no) (\<lambda>e.
          Option.bind (Option.bind (string_property ms (ascii ''honeyStores'')) decode_honey_level) (\<lambda>h.
          Option.bind (Option.bind (string_property ms (ascii ''feeding'')) decode_yes_no) (\<lambda>f.
          Option.bind (optional_string_property ms (ascii ''feedingAmount'')) (\<lambda>a.
          Option.bind (optional_string_property ms (ascii ''notes'')) (\<lambda>n.
            Some \<lparr>report_id = i, date = d, queen = q, disease = di, eggs = e, honeyStores = h,
                  feeding = f, feedingAmount = a, report_notes = n\<rparr>)))))))))
      | _ \<Rightarrow> None)"

definition decode_hive :: "json \<Rightarrow> Hive option" where
  "decode_hive j =
     (case j of
        JObject ms \<Rightarrow>
          Option.bind (string_property ms (ascii ''id'')) (\<lambda>i.
          Option.bind (string_property ms (ascii ''name'')) (\<lambda>n.
          Option.bind (string_property ms (ascii ''location'')) (\<lambda>l.
            (case get_property ms (ascii ''reports'') of
               Some (JArray rs) \<Rightarrow>
                 Option.bind (decode_all decode_report rs) (\<lambda>reps.
                   Some \<lparr>hive_id = i, name = n, location = l, reports = reps\<rparr>)
             | _ \<Rightarrow> None))))
      | _ \<Rightarrow> None)"

definition decode_state :: "json \<Rightarrow> AppState option" where
  "decode_state j =
     (case j of
        JObject ms \<Rightarrow>
          (case get_property ms (ascii ''hives'') of
             Some (JArray hs) \<Rightarrow>
               Option.bind (decode_all decode_hive hs) (\<lambda>hvs. Some \<lparr>hives = hvs\<rparr>)
           | _ \<Rightarrow> None)
      | _ \<Rightarrow> None)"

section \<open>The page\<close>

text \<open>
  What the handlers read and write besides the state: the local storage, the parts of the
  document they change, the alerts shown, the console, and the requests sent to the
  generative-AI service. The markup of the page is not among the sources; every element the
  script looks up by identifier is taken to be there, so \<open>getElement\<close> does not throw. The
  hive list is kept as the cards the template builds instead of their HTML text: one card
  for each hive, holding the reports in the order of their accordion entries.
\<close>

record hive_card =
  card_name :: js_string
  card_location :: js_string
  card_hive_id :: js_string
  card_reports :: "InspectionReport list"

datatype hives_list_content = NoHivesMessage | Cards "hive_card list"

record Dom =
  hives_list :: hives_list_content
  add_hive_modal_show :: bool
  add_inspection_modal_show :: bool
  feeding_amount_group_display :: js_string
  loading_spinner_display :: js_string
  ai_advice_result :: js_string
  image_analysis_result :: js_string

text \<open>
  A request to the service: the model name with either the prompt of the advice action, kept
  as the hives that are printed into it, or the MIME type and base64 data of an image (the
  data is \<open>None\<close> when the script passes \<open>undefined\<close>).
\<close>

datatype request =
    TextRequest js_string "Hive list"
  | ImageRequest js_string js_string "js_string option"

record World =
  state :: AppState
  localStorage :: "js_string \<Rightarrow> js_string option"
  document :: Dom
  alerts :: "js_string list"
  console_errors :: "(js_string \<times> js_string) list"
  network_calls :: "request list"

datatype js_error = SyntaxError | NotAppState json | TypeError

section \<open>State management\<close>

definition storage_key :: js_string where
  "storage_key = ascii ''beekeepingAppState''"

text \<open>
  \<open>getItem\<close> gives \<open>null\<close> for a missing key; \<open>null\<close> and the empty string are falsy, and
  then the state in memory is kept.
\<close>

definition loadStateFromLocalStorage :: "World \<Rightarrow> js_error + World" where
  "loadStateFromLocalStorage w =
     (case localStorage w storage_key of
        None \<Rightarrow> Inr w
      | Some savedState \<Rightarrow>
          if savedState = [] then Inr w
          else
            (case JSON_parse savedState of
               None \<Rightarrow> Inl SyntaxError
             | Some j \<Rightarrow>
                 (case decode_state j of
                    None \<Rightarrow> Inl (NotAppState j)
                  | Some st \<Rightarrow> Inr (w\<lparr>state := st\<rparr>))))"

definition saveStateToLocalStorage :: "World \<Rightarrow> World" where
  "saveStateToLocalStorage w =
     w\<lparr>localStorage :=
         (localStorage w)(storage_key \<mapsto> JSON_stringify (encode_state (state w)))\<rparr>"

text \<open>The state that the stored text holds, if it holds one.\<close>

definition persisted_state :: "World \<Rightarrow> AppState option" where
  "persisted_state w =
     Option.bind (localStorage w storage_key) (\<lambda>t. Option.bind (JSON_parse t) decode_state)"

section \<open>Dates\<close>

text \<open>
  A report carries its date as the string \<open>new Date().toISOString()\<close> gave when it was
  submitted, and the hive list orders reports by \<open>new Date(date).getTime()\<close>. The parser of
  the platform is a parameter of the renderer and of everything that renders: \<open>getTime d\<close> is
  \<open>Some t\<close> when the platform reads \<open>d\<close> as the time value \<open>t\<close> (milliseconds since the
  epoch) and \<open>None\<close> when it reads it as an invalid date, whose time is \<open>NaN\<close>.
\<close>

type_synonym date_parser = "js_string \<Rightarrow> int option"

text \<open>
  One such parser, for the examples: the format that \<open>toISOString\<close> writes for the years
  0000 to 9999, \<open>YYYY-MM-DDTHH:mm:ss.sssZ\<close>, read with the proleptic Gregorian calendar;
  any other string is an invalid date to it.
\<close>

definition is_leap_year :: "int \<Rightarrow> bool" where
  "is_leap_year y =
     (if y mod 400 = 0 then True else if y mod 100 = 0 then False else y mod 4 = 0)"

definition days_in_month :: "int \<Rightarrow> nat \<Rightarrow> nat" where
  "days_in_month y m =
     (if m = 2 then (if is_leap_year y then 29 else 28)
      else if m = 4 \<or> m = 6 \<or> m = 9 \<or> m = 11 then 30
      else 31)"

definition days_from_civil :: "int \<Rightarrow> nat \<Rightarrow> nat \<Rightarrow> int" where
  "days_from_civil y m d =
     (let y' = (if m \<le> 2 then y - 1 else y);
          era = y' div 400;
          yoe = y' - era * 400;
          doy = (153 * (if 2 < m then int m - 3 else int m + 9) + 2) div 5 + int d - 1;
          doe = yoe * 365 + yoe div 4 - yoe div 100 + doy
      in era * 146097 + doe - 719468)"

definition date_field :: "js_string \<Rightarrow> nat \<Rightarrow> nat \<Rightarrow> nat option" where
  "date_field s i n = number_of_digits 0 (take n (drop i s))"

definition iso_getTime :: date_parser where
  "iso_getTime s =
     (if length s = 24 \<and> s ! 4 = 0x2D \<and> s ! 7 = 0x2D \<and> s ! 10 = 0x54 \<and> s ! 13 = 0x3A
         \<and> s ! 16 = 0x3A \<and> s ! 19 = 0x2E \<and> s ! 23 = 0x5A
      then
        (case (date_field s 0 4, date_field s 5 2, date_field s 8 2, date_field s 11 2,
               date_field s 14 2, date_field s 17 2, date_field s 20 3) of
           (Some y, Some mo, Some d, Some h, Some mi, Some sec, Some ms) \<Rightarrow>
             if 1 \<le> mo \<and> mo \<le> 12 \<and> 1 \<le> d \<and> d \<le> days_in_month (int y) mo
                \<and> h < 24 \<and> mi < 60 \<and> sec < 60
             then Some (days_from_civil (int y) mo d * 86400000
                        + int h * 3600000 + int mi * 60000 + int sec * 1000 + int ms)
             else None
         | _ \<Rightarrow> None)
      else None)"

section \<open>Rendering the hive list\<close>

text \<open>
  \<open>Array.prototype.sort\<close> with a comparison function, in place. The result of the function
  is a number, \<open>NaN\<close> being \<open>None\<close>; \<open>SortCompare\<close> reads \<open>NaN\<close> as \<open>+0\<close>. The sort is stable.
  With a consistent comparison function the sorted array is determined, and it is the one
  computed here; with an inconsistent one (a report whose date is invalid) the order is left
  to the engine, and this is one of the orders it may give.
\<close>

definition SortCompare :: "('a \<Rightarrow> 'a \<Rightarrow> int option) \<Rightarrow> 'a \<Rightarrow> 'a \<Rightarrow> int" where
  "SortCompare comparefn x y = (case comparefn x y of None \<Rightarrow> 0 | Some v \<Rightarrow> v)"

fun sort_insert :: "('a \<Rightarrow> 'a \<Rightarrow> int option) \<Rightarrow> 'a \<Rightarrow> 'a list \<Rightarrow> 'a list" where
  "sort_insert comparefn x [] = [x]"
| "sort_insert comparefn x (y # ys) =
     (if SortCompare comparefn x y \<le> 0 then x # y # ys else y # sort_insert comparefn x ys)"

fun Array_sort :: "('a \<Rightarrow> 'a \<Rightarrow> int option) \<Rightarrow> 'a list \<Rightarrow> 'a list" where
  "Array_sort comparefn [] = []"
| "Array_sort comparefn (x # xs) = sort_insert comparefn x (Array_sort comparefn xs)"

text \<open>The comparison function of the template: \<open>(a, b) => time of b - time of a\<close>.\<close>

definition by_date_descending :: "date_parser \<Rightarrow> InspectionReport \<Rightarrow> InspectionReport \<Rightarrow> int option" where
  "by_date_descending getTime a b =
     (case (getTime (date b), getTime (date a)) of
        (Some tb, Some ta) \<Rightarrow> Some (tb - ta)
      | _ \<Rightarrow> None)"

text \<open>
  \<open>hive.reports.sort(...)\<close> sorts the array of the hive itself, so building a card leaves the
  hive with its reports in the order shown.
\<close>

definition sort_reports :: "date_parser \<Rightarrow> Hive \<Rightarrow> Hive" where
  "sort_reports getTime h = h\<lparr>reports := Array_sort (by_date_descending getTime) (reports h)\<rparr>"

definition render_card :: "date_parser \<Rightarrow> Hive \<Rightarrow> hive_card" where
  "render_card getTime h =
     \<lparr>card_name = name h, card_location = location h, card_hive_id = hive_id h,
      card_reports = reports (sort_reports getTime h)\<rparr>"

definition renderHivesView :: "date_parser \<Rightarrow> World \<Rightarrow> World" where
  "renderHivesView getTime w =
     (if hives (state w) = [] then w\<lparr>document := (document w)\<lparr>hives_list := NoHivesMessage\<rparr>\<rparr>
      else
        w\<lparr>state := (state w)\<lparr>hives := map (sort_reports getTime) (hives (state w))\<rparr>,
          document := (document w)\<lparr>hives_list := Cards (map (render_card getTime) (hives (state w)))\<rparr>\<rparr>)"

text \<open>The reports of a card are in descending order of their time values.\<close>

fun descending :: "int list \<Rightarrow> bool" where
  "descending [] = True"
| "descending [t] = True"
| "descending (t # u # ts) = (u \<le> t \<and> descending (u # ts))"

definition report_time :: "date_parser \<Rightarrow> InspectionReport \<Rightarrow> int" where
  "report_time getTime r = (case getTime (date r) of None \<Rightarrow> 0 | Some t \<Rightarrow> t)"

definition valid_date :: "date_parser \<Rightarrow> InspectionReport \<Rightarrow> bool" where
  "valid_date getTime r = (case getTime (date r) of None \<Rightarrow> False | Some t \<Rightarrow> True)"

section \<open>Handlers\<close>

datatype modal = AddHiveModal | AddInspectionModal

definition closeModal :: "modal \<Rightarrow> World \<Rightarrow> World" where
  "closeModal m w =
     (case m of
        AddHiveModal \<Rightarrow> w\<lparr>document := (document w)\<lparr>add_hive_modal_show := False\<rparr>\<rparr>
      | AddInspectionModal \<Rightarrow> w\<lparr>document := (document w)\<lparr>add_inspection_modal_show := False\<rparr>\<rparr>)"

definition showLoading :: "bool \<Rightarrow> World \<Rightarrow> World" where
  "showLoading isLoading w =
     w\<lparr>document := (document w)\<lparr>loading_spinner_display :=
                          (if isLoading then ascii ''flex'' else ascii ''none'')\<rparr>\<rparr>"

definition alert :: "js_string \<Rightarrow> World \<Rightarrow> World" where
  "alert msg w = w\<lparr>alerts := alerts w @ [msg]\<rparr>"

subsection \<open>Adding a hive\<close>

text \<open>
  The values of the two inputs and the reading of \<open>Date.now()\<close> are the arguments. Resetting
  the form changes nothing that is kept here: the next submission brings its own values.
\<close>

definition handleAddHive :: "date_parser \<Rightarrow> js_string \<Rightarrow> js_string \<Rightarrow> int \<Rightarrow> World \<Rightarrow> World" where
  "handleAddHive getTime name_value location_value now w =
     (let newHive = \<lparr>hive_id = ascii ''hive_'' @ number_to_string now, name = name_value,
                     location = location_value, reports = []\<rparr>;
          w1 = w\<lparr>state := (state w)\<lparr>hives := hives (state w) @ [newHive]\<rparr>\<rparr>;
          w2 = saveStateToLocalStorage w1;
          w3 = renderHivesView getTime w2
      in closeModal AddHiveModal w3)"

subsection \<open>Adding an inspection\<close>

text \<open>
  The submitted form: the hidden hive identifier, the checked radio button of each of the
  four groups (\<open>None\<close> when no button of the group is checked: \<open>querySelector\<close> then gives
  \<open>null\<close>, and reading its \<open>value\<close> throws a \<open>TypeError\<close>), the selected honey level and the
  two text inputs. The clock is read twice, by \<open>Date.now()\<close> for the identifier and by
  \<open>new Date()\<close> for the date.
\<close>

record InspectionForm =
  inspection_hive_id :: js_string
  queen_checked :: "yes_no option"
  disease_checked :: "yes_no option"
  eggs_checked :: "yes_no option"
  honey_stores :: honey_level
  feeding_checked :: "yes_no option"
  feeding_amount :: js_string
  general_notes :: js_string

record Clock =
  now_ms :: int
  now_iso :: js_string

definition checked_value :: "yes_no option \<Rightarrow> js_error + yes_no" where
  "checked_value c = (case c of None \<Rightarrow> Inl TypeError | Some v \<Rightarrow> Inr v)"

definition newReport :: "Clock \<Rightarrow> InspectionForm \<Rightarrow> js_error + InspectionReport" where
  "newReport clock form =
     (case checked_value (queen_checked form) of
        Inl e \<Rightarrow> Inl e
      | Inr q \<Rightarrow>
     (case checked_value (disease_checked form) of
        Inl e \<Rightarrow> Inl e
      | Inr d \<Rightarrow>
     (case checked_value (eggs_checked form) of
        Inl e \<Rightarrow> Inl e
      | Inr e \<Rightarrow>
     (case checked_value (feeding_checked form) of
        Inl e \<Rightarrow> Inl e
      | Inr f \<Rightarrow>
          Inr \<lparr>report_id = ascii ''report_'' @ number_to_string (now_ms clock),
               date = now_iso clock,
               queen = q, disease = d, eggs = e, honeyStores = honey_stores form, feeding = f,
               feedingAmount = Some (feeding_amount form),
               report_notes = Some (general_notes form)\<rparr>))))"

text \<open>
  \<open>state.hives.find\<close> gives the first hive with the identifier, and \<open>push\<close> appends to the
  reports of that very hive.
\<close>

fun push_report :: "js_string \<Rightarrow> InspectionReport \<Rightarrow> Hive list \<Rightarrow> Hive list" where
  "push_report hiveId r [] = []"
| "push_report hiveId r (h # hs) =
     (if hive_id h = hiveId then h\<lparr>reports := reports h @ [r]\<rparr> # hs
      else h # push_report hiveId r hs)"

definition handleAddInspection ::
  "date_parser \<Rightarrow> Clock \<Rightarrow> InspectionForm \<Rightarrow> World \<Rightarrow> js_error + World" where
  "handleAddInspection getTime clock form w =
     (let hiveId = inspection_hive_id form in
      case find (\<lambda>h. hive_id h = hiveId) (hives (state w)) of
        None \<Rightarrow> Inr w
      | Some hive \<Rightarrow>
          (case newReport clock form of
             Inl e \<Rightarrow> Inl e
           | Inr r \<Rightarrow>
               (let w1 = w\<lparr>state := (state w)\<lparr>hives := push_report hiveId r (hives (state w))\<rparr>\<rparr>;
                    w2 = saveStateToLocalStorage w1;
                    w3 = renderHivesView getTime w2;
                    w4 = closeModal AddInspectionModal w3
                in Inr (w4\<lparr>document := (document w4)\<lparr>feeding_amount_group_display := ascii ''none''\<rparr>\<rparr>))))"

subsection \<open>The two AI actions\<close>

text \<open>
  Both handlers are asynchronous. What a promise settles to is an argument: \<open>Fulfilled\<close>
  with its value, or \<open>Rejected\<close> with the error, which is what \<open>await\<close> throws inside the
  \<open>try\<close> block (a network error, an error answer of the service, a response the client
  library cannot read, or an exception of the call itself). Each handler is cut at its
  \<open>await\<close>s: the part that runs once a promise has settled takes the world as it is then,
  whatever ran in between. The response object has its text or none
  (\<open>response.text\<close> is \<open>undefined\<close>); assigning \<open>undefined\<close> to \<open>textContent\<close> empties the
  element.
\<close>

datatype 'a settled = Fulfilled 'a | Rejected js_string

record GenerateContentResponse =
  response_text :: "js_string option"

record File =
  file_type :: js_string
  file_bytes :: "8 word list"

definition textModel :: js_string where
  "textModel = ascii ''gemini-2.5-flash''"

definition visionModel :: js_string where
  "visionModel = ascii ''gemini-2.5-flash''"

definition no_data_alert :: js_string where
  "no_data_alert =
     ascii ''Analiz etm'' @ [0x259] @ ascii ''k '' @ [0xFC, 0xE7, 0xFC] @ ascii ''n he'' @ [0xE7]
     @ ascii '' bir p'' @ [0x259] @ ascii ''t'' @ [0x259] @ ascii ''k m'' @ [0x259]
     @ ascii ''lumat'' @ [0x131] @ ascii '' yoxdur.''"

definition advice_error_message :: js_string where
  "advice_error_message =
     ascii ''Analiz zaman'' @ [0x131] @ ascii '' x'' @ [0x259] @ ascii ''ta ba'' @ [0x15F]
     @ ascii '' verdi. Z'' @ [0x259] @ ascii ''hm'' @ [0x259]
     @ ascii ''t olmasa, bir az sonra yenid'' @ [0x259] @ ascii ''n c'' @ [0x259]
     @ ascii ''hd edin.''"

definition no_file_alert :: js_string where
  "no_file_alert =
     ascii ''Z'' @ [0x259] @ ascii ''hm'' @ [0x259] @ ascii ''t olmasa, analiz etm'' @ [0x259]
     @ ascii ''k '' @ [0xFC, 0xE7, 0xFC] @ ascii ''n bir '' @ [0x15F, 0x259] @ ascii ''kil se''
     @ [0xE7] @ ascii ''in.''"

definition image_error_message :: js_string where
  "image_error_message =
     [0x15E, 0x259] @ ascii ''kil analizi zaman'' @ [0x131] @ ascii '' x'' @ [0x259]
     @ ascii ''ta ba'' @ [0x15F] @ ascii '' verdi. Z'' @ [0x259] @ ascii ''hm'' @ [0x259]
     @ ascii ''t olmasa, bir az sonra yenid'' @ [0x259] @ ascii ''n c'' @ [0x259]
     @ ascii ''hd edin.''"

definition text_content :: "js_string option \<Rightarrow> js_string" where
  "text_content v = (case v of None \<Rightarrow> [] | Some s \<Rightarrow> s)"

definition advice_catch :: "js_string \<Rightarrow> World \<Rightarrow> World" where
  "advice_catch error w =
     w\<lparr>console_errors := console_errors w @ [(ascii ''AI Advice Error:'', error)],
       document := (document w)\<lparr>ai_advice_result := advice_error_message\<rparr>\<rparr>"

text \<open>After \<open>await ai.models.generateContent\<close>: the rest of \<open>try\<close> or \<open>catch\<close>, then \<open>finally\<close>.\<close>

definition advice_response_settled :: "GenerateContentResponse settled \<Rightarrow> World \<Rightarrow> World" where
  "advice_response_settled outcome w =
     showLoading False
       (case outcome of
          Fulfilled response \<Rightarrow>
            w\<lparr>document := (document w)\<lparr>ai_advice_result := text_content (response_text response)\<rparr>\<rparr>
        | Rejected error \<Rightarrow> advice_catch error w)"

definition handleGetAIAdvice ::
  "(request \<Rightarrow> GenerateContentResponse settled) \<Rightarrow> World \<Rightarrow> World" where
  "handleGetAIAdvice generateContent w =
     (if hives (state w) = [] then alert no_data_alert w
      else
        (let w1 = showLoading True w;
             w2 = w1\<lparr>document := (document w1)\<lparr>ai_advice_result := []\<rparr>\<rparr>;
             req = TextRequest textModel (hives (state w2));
             w3 = w2\<lparr>network_calls := network_calls w2 @ [req]\<rparr>
         in advice_response_settled (generateContent req) w3))"

text \<open>
  \<open>fileToBase64\<close>: the data URL that the file reader gives, split at the commas, and the
  second piece of it (\<open>undefined\<close> when there is no comma).
\<close>

fun split_on :: "16 word \<Rightarrow> js_string \<Rightarrow> js_string list" where
  "split_on sep [] = [[]]"
| "split_on sep (c # cs) =
     (if c = sep then [] # split_on sep cs
      else (case split_on sep cs of [] \<Rightarrow> [[c]] | p # ps \<Rightarrow> (c # p) # ps))"

definition second_piece :: "js_string list \<Rightarrow> js_string option" where
  "second_piece ps = (case ps of a # b # rest \<Rightarrow> Some b | _ \<Rightarrow> None)"

definition fileToBase64 :: "(File \<Rightarrow> js_string settled) \<Rightarrow> File \<Rightarrow> js_string option settled" where
  "fileToBase64 readAsDataURL file =
     (case readAsDataURL file of
        Fulfilled result \<Rightarrow> Fulfilled (second_piece (split_on 0x2C result))
      | Rejected error \<Rightarrow> Rejected error)"

definition image_catch :: "js_string \<Rightarrow> World \<Rightarrow> World" where
  "image_catch error w =
     w\<lparr>console_errors := console_errors w @ [(ascii ''Image Analysis Error:'', error)],
       document := (document w)\<lparr>image_analysis_result := image_error_message\<rparr>\<rparr>"

definition image_response_settled :: "GenerateContentResponse settled \<Rightarrow> World \<Rightarrow> World" where
  "image_response_settled outcome w =
     showLoading False
       (case outcome of
          Fulfilled response \<Rightarrow>
            w\<lparr>document := (document w)\<lparr>image_analysis_result := text_content (response_text response)\<rparr>\<rparr>
        | Rejected error \<Rightarrow> image_catch error w)"

definition image_read_settled ::
  "(request \<Rightarrow> GenerateContentResponse settled) \<Rightarrow> File \<Rightarrow> js_string option settled \<Rightarrow>
     World \<Rightarrow> World" where
  "image_read_settled generateContent file outcome w =
     (case outcome of
        Fulfilled base64Image \<Rightarrow>
          (let req = ImageRequest visionModel (file_type file) base64Image;
               w1 = w\<lparr>network_calls := network_calls w @ [req]\<rparr>
           in image_response_settled (generateContent req) w1)
      | Rejected error \<Rightarrow> showLoading False (image_catch error w))"

definition handleAnalyzeImage ::
  "(File \<Rightarrow> js_string settled) \<Rightarrow> (request \<Rightarrow> GenerateContentResponse settled) \<Rightarrow>
     File list \<Rightarrow> World \<Rightarrow> World" where
  "handleAnalyzeImage readAsDataURL generateContent files w =
     (case files of
        [] \<Rightarrow> alert no_file_alert w
      | file # others \<Rightarrow>
          (let w1 = showLoading True w;
               w2 = w1\<lparr>document := (document w1)\<lparr>image_analysis_result := []\<rparr>\<rparr>
           in image_read_settled generateContent file (fileToBase64 readAsDataURL file) w2))"

section \<open>Sequences of actions\<close>

text \<open>
  The two mutating actions, each with what the user submitted and what the clock read. An
  exception leaves a handler before it has changed anything, and the page goes on with the
  next event.
\<close>

datatype action =
    AddHive js_string js_string int
  | AddInspection Clock InspectionForm

fun step :: "date_parser \<Rightarrow> World \<Rightarrow> action \<Rightarrow> World" where
  "step getTime w (AddHive name_value location_value now) =
     handleAddHive getTime name_value location_value now w"
| "step getTime w (AddInspection clock form) =
     (case handleAddInspection getTime clock form w of Inl e \<Rightarrow> w | Inr w' \<Rightarrow> w')"

definition run :: "date_parser \<Rightarrow> World \<Rightarrow> action list \<Rightarrow> World" where
  "run getTime w acts = foldl (step getTime) w acts"

fun hive_times :: "action list \<Rightarrow> int list" where
  "hive_times [] = []"
| "hive_times (AddHive n l t # acts) = t # hive_times acts"
| "hive_times (AddInspection c f # acts) = hive_times acts"

fun report_times :: "action list \<Rightarrow> int list" where
  "report_times [] = []"
| "report_times (AddHive n l t # acts) = report_times acts"
| "report_times (AddInspection c f # acts) = now_ms c # report_times acts"

definition hive_ids :: "AppState \<Rightarrow> js_string list" where
  "hive_ids st = map hive_id (hives st)"


text \<open>A run of add-hive submissions alone: name, location and clock reading of each.\<close>

definition add_hives :: "date_parser \<Rightarrow> World \<Rightarrow> (js_string \<times> js_string \<times> int) list \<Rightarrow> World" where
  "add_hives getTime w subs = foldl (\<lambda>w' (n, l, t). handleAddHive getTime n l t w') w subs"


text \<open>The position of the hive that \<open>find\<close> gives: the first with the identifier.\<close>

definition target_index :: "js_string \<Rightarrow> Hive list \<Rightarrow> nat" where
  "target_index hiveId hs = length (takeWhile (\<lambda>h. hive_id h \<noteq> hiveId) hs)"

text \<open>All reports of the store, hive after hive.\<close>

definition all_reports :: "AppState \<Rightarrow> InspectionReport list" where
  "all_reports st = concat (map reports (hives st))"

definition report_ids :: "AppState \<Rightarrow> js_string list" where
  "report_ids st = map report_id (all_reports st)"

section \<open>Example worlds\<close>

text \<open>
  The page as it is once started on an empty storage, and a beekeeper who adds one hive on
  1 January 2024 at midnight (UTC), inspects it a minute later and again the next day.
\<close>

definition page_on_load :: World where
  "page_on_load =
     \<lparr>state = \<lparr>hives = []\<rparr>,
      localStorage = (\<lambda>k. None),
      document = \<lparr>hives_list = NoHivesMessage, add_hive_modal_show = False,
             add_inspection_modal_show = False, feeding_amount_group_display = ascii ''none'',
             loading_spinner_display = ascii ''none'', ai_advice_result = [],
             image_analysis_result = []\<rparr>,
      alerts = [], console_errors = [], network_calls = []\<rparr>"

definition example_form :: InspectionForm where
  "example_form =
     \<lparr>inspection_hive_id = ascii ''hive_1704067200000'',
      queen_checked = Some Yes, disease_checked = Some No, eggs_checked = Some Yes,
      honey_stores = Good, feeding_checked = Some No,
      feeding_amount = [], general_notes = ascii ''calm''\<rparr>"

definition first_clock :: Clock where
  "first_clock = \<lparr>now_ms = 1704067260000, now_iso = ascii ''2024-01-01T00:01:00.000Z''\<rparr>"

definition second_clock :: Clock where
  "second_clock = \<lparr>now_ms = 1704153600000, now_iso = ascii ''2024-01-02T00:00:00.000Z''\<rparr>"

definition first_report :: InspectionReport where
  "first_report =
     \<lparr>report_id = ascii ''report_1704067260000'', date = ascii ''2024-01-01T00:01:00.000Z'',
      queen = Yes, disease = No, eggs = Yes, honeyStores = Good, feeding = No,
      feedingAmount = Some [], report_notes = Some (ascii ''calm'')\<rparr>"

definition second_report :: InspectionReport where
  "second_report =
     \<lparr>report_id = ascii ''report_1704153600000'', date = ascii ''2024-01-02T00:00:00.000Z'',
      queen = Yes, disease = No, eggs = Yes, honeyStores = Good, feeding = No,
      feedingAmount = Some [], report_notes = Some (ascii ''calm'')\<rparr>"

definition example_hive :: "InspectionReport list \<Rightarrow> Hive" where
  "example_hive rs =
     \<lparr>hive_id = ascii ''hive_1704067200000'', name = ascii ''Linden'',
      location = ascii ''Quba'', reports = rs\<rparr>"

definition world_with_hives :: "Hive list \<Rightarrow> World" where
  "world_with_hives hs = page_on_load\<lparr>state := \<lparr>hives = hs\<rparr>\<rparr>"

definition beekeeper_actions :: "action list" where
  "beekeeper_actions =
     [AddHive (ascii ''Linden'') (ascii ''Quba'') 1704067200000,
      AddInspection first_clock example_form,
      AddInspection second_clock example_form]"

text \<open>
  A photograph of two bytes with the data URL that the file reader gives for it, and a
  service whose answer arrives but carries no text.
\<close>

definition example_file :: File where
  "example_file = \<lparr>file_type = ascii ''image/jpeg'', file_bytes = [0xFF, 0xD8]\<rparr>"

definition example_reader :: "File \<Rightarrow> js_string settled" where
  "example_reader f = Fulfilled (ascii ''data:image/jpeg;base64,/9g='')"

definition textless_service :: "request \<Rightarrow> GenerateContentResponse settled" where
  "textless_service req = Fulfilled \<lparr>response_text = None\<rparr>"

section \<open>Properties of the JSON text\<close>

lemma unat_hex_digit: "d < 16 \<Longrightarrow> unat (hex_digit d) = (if d < 10 then 48 + d else 87 + d)"
  by (simp only: hex_digit_def unat_of_nat split: if_split) simp

lemma unhex_hex_digit: "d < 16 \<Longrightarrow> unhex_digit (hex_digit d) = Some d"
  by (simp add: unhex_digit_def unat_hex_digit Let_def)

lemma hex_digits_value:
  fixes n :: nat
  shows "n div 4096 * 4096 + n div 256 mod 16 * 256 + n div 16 mod 16 * 16 + n mod 16 = n"
proof -
  define a where "a = n div 16"
  define b where "b = a div 16"
  define c where "c = b div 16"
  define r0 where "r0 = n mod 16"
  define r1 where "r1 = a mod 16"
  define r2 where "r2 = b mod 16"
  have n: "n = 16 * a + r0" by (simp add: a_def r0_def)
  have a: "a = 16 * b + r1" by (simp add: b_def r1_def)
  have b: "b = 16 * c + r2" by (simp add: c_def r2_def)
  have d256: "n div 256 = b" by (simp add: a_def b_def div_mult2_eq)
  have d4096: "n div 4096 = c" by (simp add: a_def b_def c_def div_mult2_eq)
  have "c * 4096 + r2 * 256 + r1 * 16 + r0 = n"
    using n a b by linarith
  then show ?thesis
    unfolding d256 d4096 by (simp only: r0_def r1_def r2_def a_def [symmetric])
qed

lemma unhex4_escape:
  "unhex4 (hex_digit (unat c div 4096)) (hex_digit (unat c div 256 mod 16))
          (hex_digit (unat c div 16 mod 16)) (hex_digit (unat c mod 16)) = Some c"
proof -
  have b: "unat c < 65536" using unsigned_less [of c] by simp
  then have d: "unat c div 4096 < 16" by simp
  show ?thesis
    by (simp add: unhex4_def unhex_hex_digit d hex_digits_value)
qed

lemma parse_quote_unit:
  "parse_string_body (quote_unit c @ s) = cons_result c (parse_string_body s)"
  by (simp add: quote_unit_def UnicodeEscape_def unhex4_escape unescape_def)

lemma parse_surrogate:
  assumes "is_high_surrogate c \<or> is_low_surrogate c"
  shows "parse_string_body (c # s) = cons_result c (parse_string_body s)"
proof -
  have "c \<noteq> 0x22" "c \<noteq> 0x5C" "\<not> c < 0x20"
    using assms by (auto simp: is_high_surrogate_def is_low_surrogate_def word_le_nat_alt word_less_nat_alt)
  then show ?thesis by simp
qed

lemma parse_quote_body:
  "parse_string_body (quote_body s @ 0x22 # rest) = Some (s, rest)"
proof (induction s rule: quote_body.induct)
  case 1
  show ?case by simp
next
  case (2 c)
  have "parse_string_body (quote_unit c @ 0x22 # rest) = Some ([c], rest)"
    unfolding parse_quote_unit by (simp add: cons_result_def)
  then show ?case by simp
next
  case (3 c d cs)
  show ?case
  proof (cases "is_high_surrogate c \<and> is_low_surrogate d")
    case True
    then have q: "quote_body (c # d # cs) = c # d # quote_body cs" by simp
    have "parse_string_body (c # d # quote_body cs @ 0x22 # rest) =
            cons_result c (cons_result d (parse_string_body (quote_body cs @ 0x22 # rest)))"
      using True by (simp add: parse_surrogate del: parse_string_body.simps)
    also have "\<dots> = Some (c # d # cs, rest)"
      using True 3(1) by (simp add: cons_result_def)
    finally have "parse_string_body (c # d # quote_body cs @ 0x22 # rest) = Some (c # d # cs, rest)" .
    then show ?thesis unfolding q by simp
  next
    case False
    then have q: "quote_body (c # d # cs) = quote_unit c @ quote_body (d # cs)" by auto
    have "parse_string_body (quote_unit c @ quote_body (d # cs) @ 0x22 # rest) = Some (c # d # cs, rest)"
      unfolding parse_quote_unit using False 3(2) by (simp add: cons_result_def)
    then show ?thesis unfolding q by simp
  qed
qed

lemma stringify_start:
  "number_free v \<Longrightarrow> \<exists>c t. JSON_stringify v = c # t \<and> value_start c"
  by (cases v) (auto simp: value_start_def ascii_def QuoteJSONString_def)

lemma value_start_simps:
  "value_start c \<Longrightarrow> \<not> is_ws c"
  "value_start c \<Longrightarrow> c \<noteq> 0x5D"
  "value_start c \<Longrightarrow> c \<noteq> 0x7D"
  by (auto simp: value_start_def is_ws_def)

lemma parse_literal_true: "parse_literal (ascii ''true'' @ rest) = Some (JBool True, rest)"
  by (simp add: parse_literal_def strip_prefix_def ascii_def)
lemma parse_literal_false: "parse_literal (ascii ''false'' @ rest) = Some (JBool False, rest)"
  by (simp add: parse_literal_def strip_prefix_def ascii_def)
lemma parse_literal_null: "parse_literal (ascii ''null'' @ rest) = Some (JNull, rest)"
  by (simp add: parse_literal_def strip_prefix_def ascii_def)

lemma parse_value_scalar:
  "parse_value (Suc n) (JSON_stringify JNull @ rest) = Some (JNull, rest)"
  "parse_value (Suc n) (JSON_stringify (JBool b) @ rest) = Some (JBool b, rest)"
  "parse_value (Suc n) (JSON_stringify (JString s) @ rest) = Some (JString s, rest)"
proof -
  have "parse_value (Suc n) (ascii ''null'' @ rest) = parse_literal (ascii ''null'' @ rest)"
    by (simp add: ascii_def is_ws_def)
  then show "parse_value (Suc n) (JSON_stringify JNull @ rest) = Some (JNull, rest)"
    by (simp add: parse_literal_null)
  have "parse_value (Suc n) (ascii ''true'' @ rest) = parse_literal (ascii ''true'' @ rest)"
       "parse_value (Suc n) (ascii ''false'' @ rest) = parse_literal (ascii ''false'' @ rest)"
    by (simp_all add: ascii_def is_ws_def)
  then show "parse_value (Suc n) (JSON_stringify (JBool b) @ rest) = Some (JBool b, rest)"
    by (simp add: parse_literal_true parse_literal_false)
  show "parse_value (Suc n) (JSON_stringify (JString s) @ rest) = Some (JString s, rest)"
    by (simp add: QuoteJSONString_def is_ws_def parse_quote_body)
qed


lemma skip_ws_start: "value_start c \<Longrightarrow> skip_ws (c # s) = c # s"
  by (simp add: value_start_simps)

lemma skip_ws_punct:
  "skip_ws (0x2C # s) = 0x2C # s" "skip_ws (0x5D # s) = 0x5D # s"
  "skip_ws (0x7D # s) = 0x7D # s" "skip_ws (0x3A # s) = 0x3A # s"
  "skip_ws (0x22 # s) = 0x22 # s" "skip_ws (0x5B # s) = 0x5B # s"
  "skip_ws (0x7B # s) = 0x7B # s"
  by (simp_all add: is_ws_def)

lemma parse_stringify:
  "number_free v \<Longrightarrow> length (JSON_stringify v) \<le> n \<Longrightarrow>
     parse_value n (JSON_stringify v @ rest) = Some (v, rest)"
  "number_free_elements vs \<Longrightarrow> vs \<noteq> [] \<Longrightarrow> length (stringify_elements vs) \<le> n \<Longrightarrow>
     parse_elements n (stringify_elements vs @ rest) = Some (vs, rest)"
  "number_free_members ms \<Longrightarrow> ms \<noteq> [] \<Longrightarrow> length (stringify_members ms) \<le> n \<Longrightarrow>
     parse_members n (stringify_members ms @ rest) = Some (ms, rest)"
proof (induction v and vs and ms arbitrary: n rest and n rest and n rest
       rule: JSON_stringify_stringify_elements_stringify_members.induct)
  case 1
  then obtain m where "n = Suc m" by (cases n) (auto simp: ascii_def)
  then show ?case by (simp only: parse_value_scalar)
next
  case (2 b)
  then obtain m where "n = Suc m" by (cases n) (auto simp: ascii_def split: if_splits)
  then show ?case by (simp only: parse_value_scalar)
next
  case (3 k)
  then show ?case by simp
next
  case (4 s)
  then obtain m where "n = Suc m" by (cases n) (auto simp: QuoteJSONString_def)
  then show ?case by (simp only: parse_value_scalar)
next
  case (5 vs)
  from 5(3) obtain m where n: "n = Suc m" and m: "length (stringify_elements vs) \<le> m"
    by (cases n) auto
  show ?case
  proof (cases vs)
    case Nil
    then show ?thesis by (simp add: n skip_ws_punct del: skip_ws.simps)
  next
    case (Cons w ws)
    with 5(2) obtain c t where ct: "JSON_stringify w = c # t" "value_start c"
      using stringify_start [of w] by auto
    have "parse_elements m (stringify_elements vs @ rest) = Some (vs, rest)"
      using 5(1) [OF _ _ m] 5(2) Cons by simp
    moreover obtain u where "stringify_elements vs @ rest = c # u"
      using Cons ct by simp
    ultimately show ?thesis
      using ct(2) by (simp add: n skip_ws_punct skip_ws_start value_start_simps del: skip_ws.simps)
  qed
next
  case (6 ms)
  from 6(3) obtain m where n: "n = Suc m" and m: "length (stringify_members ms) \<le> m"
    by (cases n) auto
  show ?case
  proof (cases ms)
    case Nil
    then show ?thesis by (simp add: n skip_ws_punct del: skip_ws.simps)
  next
    case (Cons p ps)
    have "parse_members m (stringify_members ms @ rest) = Some (ms, rest)"
      using 6(1) [OF _ _ m] 6(2) Cons by simp
    moreover obtain u where "stringify_members ms @ rest = 0x22 # u"
      using Cons by (cases p) (simp add: QuoteJSONString_def)
    ultimately show ?thesis
      by (simp add: n skip_ws_punct del: skip_ws.simps)
  qed
next
  case 7
  then show ?case by simp
next
  case (8 v vs)
  from 8(5) obtain m where n: "n = Suc m" by (cases n) (auto split: if_splits)
  have lv: "length (JSON_stringify v) \<le> m" using 8(5) n by (simp split: if_splits)
  have pv: "\<And>r. parse_value m (JSON_stringify v @ r) = Some (v, r)"
    using 8(1) [OF _ lv] 8(3) by simp
  show ?case
  proof (cases "vs = []")
    case True
    then show ?thesis by (simp add: n pv skip_ws_punct del: skip_ws.simps)
  next
    case False
    have "length (stringify_elements vs) \<le> m" using 8(5) n False by simp
    then have "parse_elements m (stringify_elements vs @ rest) = Some (vs, rest)"
      using 8(2) [OF False _ False] 8(3) by simp
    then show ?thesis using False by (simp add: n pv skip_ws_punct cons_result_def del: skip_ws.simps)
  qed
next
  case 9
  then show ?case by simp
next
  case (10 k v ms)
  from 10(5) obtain m where n: "n = Suc m" by (cases n) (auto split: if_splits)
  have lv: "length (JSON_stringify v) \<le> m" using 10(5) n by (simp split: if_splits)
  have pv: "\<And>r. parse_value m (JSON_stringify v @ r) = Some (v, r)"
    using 10(1) [OF _ lv] 10(3) by simp
  have key: "\<And>r. parse_string_body (quote_body k @ 0x22 # r) = Some (k, r)"
    by (rule parse_quote_body)
  show ?case
  proof (cases "ms = []")
    case True
    then show ?thesis by (simp add: n pv key skip_ws_punct QuoteJSONString_def del: skip_ws.simps)
  next
    case False
    have "length (stringify_members ms) \<le> m" using 10(5) n False by simp
    then have "parse_members m (stringify_members ms @ rest) = Some (ms, rest)"
      using 10(2) [OF False _ False] 10(3) by simp
    then show ?thesis
      using False by (simp add: n pv key skip_ws_punct QuoteJSONString_def cons_result_def del: skip_ws.simps)
  qed
qed

lemma JSON_parse_stringify:
  assumes "number_free v"
  shows "JSON_parse (JSON_stringify v) = Some v"
  using parse_stringify(1) [OF assms order_refl, of "[]"] by (simp add: JSON_parse_def)

section \<open>Saving and loading\<close>

lemma decode_all_encode:
  assumes "\<And>x. dec (enc x) = Some x"
  shows "decode_all dec (map enc xs) = Some xs"
  by (induction xs) (simp_all add: assms)

lemma decode_yes_no_string: "decode_yes_no (yes_no_string v) = Some v"
  by (cases v) (simp_all add: decode_yes_no_def yes_no_string_def ascii_def)

lemma decode_honey_level_string: "decode_honey_level (honey_level_string v) = Some v"
  by (cases v) (simp_all add: decode_honey_level_def honey_level_string_def ascii_def)

lemma decode_encode_report: "decode_report (encode_report r) = Some r"
  by (cases "feedingAmount r"; cases "report_notes r")
     (simp_all add: decode_report_def encode_report_def optional_member_def string_property_def
        optional_string_property_def get_property_def ascii_def decode_yes_no_string
        decode_honey_level_string)

lemma decode_encode_hive: "decode_hive (encode_hive h) = Some h"
  by (simp add: decode_hive_def encode_hive_def string_property_def get_property_def ascii_def
        decode_all_encode decode_encode_report)

lemma decode_encode_state: "decode_state (encode_state st) = Some st"
  by (simp add: decode_state_def encode_state_def get_property_def
        decode_all_encode decode_encode_hive)

lemma number_free_report: "number_free (encode_report r)"
  by (cases "feedingAmount r"; cases "report_notes r")
     (simp_all add: encode_report_def optional_member_def)

lemma number_free_reports: "number_free_elements (map encode_report rs)"
  by (induction rs) (simp_all add: number_free_report)

lemma number_free_hive: "number_free (encode_hive h)"
  by (simp add: encode_hive_def number_free_reports)

lemma number_free_hives: "number_free_elements (map encode_hive hs)"
  by (induction hs) (simp_all add: number_free_hive)

lemma number_free_state: "number_free (encode_state st)"
  by (simp add: encode_state_def number_free_hives)

lemma stringify_state_nonempty: "JSON_stringify (encode_state st) \<noteq> []"
  by (simp add: encode_state_def)

lemma parse_saved_state:
  "Option.bind (JSON_parse (JSON_stringify (encode_state st))) decode_state = Some st"
  by (simp add: JSON_parse_stringify number_free_state decode_encode_state)

lemma persisted_state_save: "persisted_state (saveStateToLocalStorage w) = Some (state w)"
  by (simp add: persisted_state_def saveStateToLocalStorage_def parse_saved_state)

lemma load_after_save:
  "loadStateFromLocalStorage ((saveStateToLocalStorage w)\<lparr>state := s0\<rparr>) =
     Inr (saveStateToLocalStorage w)"
  by (simp add: loadStateFromLocalStorage_def saveStateToLocalStorage_def
        stringify_state_nonempty JSON_parse_stringify number_free_state decode_encode_state)

text \<open>
  C1. Saving the state and then loading it gives the state that was saved: the same hives,
  the same reports with the same contents, in the same order within each hive. This holds
  for every state, so for every state that the add-hive and add-inspection handlers have
  built, and whatever state is in memory when the text is loaded (after a reload of the page,
  the empty one).
\<close>

theorem save_then_load_restores_state:
  "loadStateFromLocalStorage ((saveStateToLocalStorage w)\<lparr>state := s0\<rparr>) =
     Inr (saveStateToLocalStorage w)
   \<and> state (saveStateToLocalStorage w) = state w
   \<and> hives (state (saveStateToLocalStorage w)) = hives (state w)"
  by (simp add: load_after_save) (simp add: saveStateToLocalStorage_def)

section \<open>The AI actions\<close>

lemma messages_nonempty:
  "no_data_alert \<noteq> []" "advice_error_message \<noteq> []"
  "no_file_alert \<noteq> []" "image_error_message \<noteq> []"
  by (simp_all add: no_data_alert_def advice_error_message_def no_file_alert_def
        image_error_message_def ascii_def)

text \<open>
  C8. With no hive in the state, asking for advice sends nothing to the service, shows the
  "no data" alert, and leaves the document (output region and loading indicator among it),
  the state and the storage as they were.
\<close>

theorem advice_without_hives:
  assumes "hives (state w) = []"
  shows "network_calls (handleGetAIAdvice generateContent w) = network_calls w
         \<and> alerts (handleGetAIAdvice generateContent w) = alerts w @ [no_data_alert]
         \<and> no_data_alert \<noteq> []
         \<and> document (handleGetAIAdvice generateContent w) = document w
         \<and> state (handleGetAIAdvice generateContent w) = state w
         \<and> localStorage (handleGetAIAdvice generateContent w) = localStorage w"
  using assms by (simp add: handleGetAIAdvice_def alert_def messages_nonempty)

theorem advice_without_hives_witness:
  "hives (state page_on_load) = []
   \<and> network_calls (handleGetAIAdvice (\<lambda>req. Fulfilled \<lparr>response_text = Some (ascii ''ok'')\<rparr>)
        page_on_load) = []
   \<and> alerts (handleGetAIAdvice (\<lambda>req. Fulfilled \<lparr>response_text = Some (ascii ''ok'')\<rparr>)
        page_on_load) = [no_data_alert]
   \<and> document (handleGetAIAdvice (\<lambda>req. Fulfilled \<lparr>response_text = Some (ascii ''ok'')\<rparr>)
        page_on_load) = document page_on_load"
  using advice_without_hives
    [of page_on_load "\<lambda>req. Fulfilled \<lparr>response_text = Some (ascii ''ok'')\<rparr>"]
  by (simp add: page_on_load_def)

text \<open>
  Whenever a promise of one of the two AI actions is rejected (the request, or reading the
  file), the part of the handler that runs then ends with the loading indicator hidden and
  the generic error message, which is not empty, in the output region of the action; this
  holds in whatever world the rejection arrives. The handlers run as a whole, with a service
  or a file reader that fails, end in the same way: the rejection is caught, the handler
  returns a world.
\<close>

lemma rejection_shows_error:
  "loading_spinner_display (document (advice_response_settled (Rejected e) w)) = ascii ''none''
   \<and> ai_advice_result (document (advice_response_settled (Rejected e) w)) = advice_error_message
   \<and> loading_spinner_display (document (image_response_settled (Rejected e) w)) = ascii ''none''
   \<and> image_analysis_result (document (image_response_settled (Rejected e) w)) = image_error_message
   \<and> loading_spinner_display (document (image_read_settled generateContent file (Rejected e) w))
       = ascii ''none''
   \<and> image_analysis_result (document (image_read_settled generateContent file (Rejected e) w))
       = image_error_message
   \<and> loading_spinner_display
       (document (handleGetAIAdvice (\<lambda>req. Rejected e) (w\<lparr>state := (state w)\<lparr>hives := h # hs\<rparr>\<rparr>)))
       = ascii ''none''
   \<and> ai_advice_result
       (document (handleGetAIAdvice (\<lambda>req. Rejected e) (w\<lparr>state := (state w)\<lparr>hives := h # hs\<rparr>\<rparr>)))
       = advice_error_message
   \<and> loading_spinner_display
       (document (handleAnalyzeImage (\<lambda>f. Rejected e) generateContent (file # others) w))
       = ascii ''none''
   \<and> image_analysis_result
       (document (handleAnalyzeImage (\<lambda>f. Rejected e) generateContent (file # others) w))
       = image_error_message
   \<and> loading_spinner_display
       (document (handleAnalyzeImage readAsDataURL (\<lambda>req. Rejected e) (file # others) w))
       = ascii ''none''
   \<and> image_analysis_result
       (document (handleAnalyzeImage readAsDataURL (\<lambda>req. Rejected e) (file # others) w))
       = image_error_message
   \<and> advice_error_message \<noteq> [] \<and> image_error_message \<noteq> []"
proof -
  have a: "loading_spinner_display (document (advice_response_settled (Rejected e) v)) = ascii ''none''
      \<and> ai_advice_result (document (advice_response_settled (Rejected e) v)) = advice_error_message"
    for v
    by (simp add: advice_response_settled_def advice_catch_def showLoading_def)
  have b: "loading_spinner_display (document (image_response_settled (Rejected e) v)) = ascii ''none''
      \<and> image_analysis_result (document (image_response_settled (Rejected e) v)) = image_error_message"
    for v
    by (simp add: image_response_settled_def image_catch_def showLoading_def)
  have c: "loading_spinner_display (document (image_read_settled g file (Rejected e) v)) = ascii ''none''
      \<and> image_analysis_result (document (image_read_settled g file (Rejected e) v)) = image_error_message"
    for v g
    by (simp add: image_read_settled_def image_catch_def showLoading_def)
  have d: "handleGetAIAdvice (\<lambda>req. Rejected e) (w\<lparr>state := (state w)\<lparr>hives := h # hs\<rparr>\<rparr>)
      = advice_response_settled (Rejected e)
          ((showLoading True (w\<lparr>state := (state w)\<lparr>hives := h # hs\<rparr>\<rparr>))
             \<lparr>document := (document (showLoading True w))\<lparr>ai_advice_result := []\<rparr>,
              network_calls := network_calls w @ [TextRequest textModel (h # hs)]\<rparr>)"
    by (simp add: handleGetAIAdvice_def Let_def showLoading_def)
  have f: "handleAnalyzeImage (\<lambda>f. Rejected e) generateContent (file # others) w
      = image_read_settled generateContent file (Rejected e)
          ((showLoading True w)\<lparr>document := (document (showLoading True w))\<lparr>image_analysis_result := []\<rparr>\<rparr>)"
    by (simp add: handleAnalyzeImage_def Let_def fileToBase64_def)
  have g: "loading_spinner_display
       (document (handleAnalyzeImage readAsDataURL (\<lambda>req. Rejected e) (file # others) w))
       = ascii ''none''
     \<and> image_analysis_result
       (document (handleAnalyzeImage readAsDataURL (\<lambda>req. Rejected e) (file # others) w))
       = image_error_message"
    by (cases "readAsDataURL file")
       (simp_all add: handleAnalyzeImage_def Let_def fileToBase64_def image_read_settled_def
          image_response_settled_def image_catch_def showLoading_def)
  show ?thesis
    unfolding d f using a b c g by (simp add: messages_nonempty)
qed

text \<open>
  A response that arrives without text is no rejection: nothing is thrown, the \<open>catch\<close>
  clause does not run, and the assignment of \<open>response.text\<close> empties the output region.
\<close>

lemma textless_response_settled:
  "ai_advice_result (document (advice_response_settled
      (Fulfilled \<lparr>response_text = None\<rparr>) w)) = []"
  "console_errors (advice_response_settled (Fulfilled \<lparr>response_text = None\<rparr>) w)
     = console_errors w"
  "image_analysis_result (document (image_response_settled
      (Fulfilled \<lparr>response_text = None\<rparr>) w)) = []"
  "console_errors (image_response_settled (Fulfilled \<lparr>response_text = None\<rparr>) w)
     = console_errors w"
  by (simp_all add: advice_response_settled_def image_response_settled_def showLoading_def
        text_content_def)

lemma example_base64:
  "second_piece (split_on 0x2C (ascii ''data:image/jpeg;base64,/9g='')) = Some (ascii ''/9g='')"
  by (simp add: second_piece_def ascii_def)

text \<open>
  C7 at a malformed response. The store holds one hive and the service answers the advice
  request with a response that has no text; a photograph is chosen and the service answers
  the image request in the same way. Both handlers send their request and end with the
  loading indicator hidden, but the output region is empty: the generic error message is not
  shown, and nothing is written to the console. Only a rejected promise or an exception
  reaches the \<open>catch\<close> clause that shows the message.
\<close>

theorem textless_response_shows_no_error:
  "network_calls (handleGetAIAdvice textless_service (world_with_hives [example_hive []]))
     = [TextRequest textModel [example_hive []]]
   \<and> loading_spinner_display (document
         (handleGetAIAdvice textless_service (world_with_hives [example_hive []])))
       = ascii ''none''
   \<and> ai_advice_result (document
         (handleGetAIAdvice textless_service (world_with_hives [example_hive []]))) = []
   \<and> ai_advice_result (document
         (handleGetAIAdvice textless_service (world_with_hives [example_hive []])))
       \<noteq> advice_error_message
   \<and> console_errors (handleGetAIAdvice textless_service (world_with_hives [example_hive []]))
       = []
   \<and> network_calls (handleAnalyzeImage example_reader textless_service [example_file]
         page_on_load)
       = [ImageRequest visionModel (ascii ''image/jpeg'') (Some (ascii ''/9g=''))]
   \<and> loading_spinner_display (document
         (handleAnalyzeImage example_reader textless_service [example_file] page_on_load))
       = ascii ''none''
   \<and> image_analysis_result (document
         (handleAnalyzeImage example_reader textless_service [example_file] page_on_load)) = []
   \<and> image_analysis_result (document
         (handleAnalyzeImage example_reader textless_service [example_file] page_on_load))
       \<noteq> image_error_message
   \<and> console_errors
         (handleAnalyzeImage example_reader textless_service [example_file] page_on_load) = []"
proof -
  have a: "handleGetAIAdvice textless_service (world_with_hives [example_hive []])
      = advice_response_settled (Fulfilled \<lparr>response_text = None\<rparr>)
          ((showLoading True (world_with_hives [example_hive []]))
             \<lparr>document := (document (showLoading True (world_with_hives [example_hive []])))
                           \<lparr>ai_advice_result := []\<rparr>,
              network_calls := [TextRequest textModel [example_hive []]]\<rparr>)"
    by (simp add: handleGetAIAdvice_def Let_def textless_service_def showLoading_def
          world_with_hives_def page_on_load_def)
  have b: "handleAnalyzeImage example_reader textless_service [example_file] page_on_load
      = image_response_settled (Fulfilled \<lparr>response_text = None\<rparr>)
          ((showLoading True page_on_load)
             \<lparr>document := (document (showLoading True page_on_load))
                           \<lparr>image_analysis_result := []\<rparr>,
              network_calls :=
                [ImageRequest visionModel (ascii ''image/jpeg'') (Some (ascii ''/9g=''))]\<rparr>)"
    by (simp add: handleAnalyzeImage_def Let_def fileToBase64_def example_reader_def
          example_base64 image_read_settled_def textless_service_def example_file_def
          showLoading_def page_on_load_def del: split_on.simps)
  have c: "network_calls (advice_response_settled out v) = network_calls v
           \<and> loading_spinner_display (document (advice_response_settled out v)) = ascii ''none''"
    for out v
    by (cases out)
       (simp_all add: advice_response_settled_def advice_catch_def showLoading_def)
  have d: "network_calls (image_response_settled out v) = network_calls v
           \<and> loading_spinner_display (document (image_response_settled out v)) = ascii ''none''"
    for out v
    by (cases out)
       (simp_all add: image_response_settled_def image_catch_def showLoading_def)
  have e: "console_errors ((showLoading True v)\<lparr>document := dd, network_calls := nn\<rparr>)
             = console_errors v" for v dd nn
    by (simp add: showLoading_def)
  have f: "console_errors (world_with_hives [example_hive []]) = []"
          "console_errors page_on_load = []"
    by (simp_all add: world_with_hives_def page_on_load_def)
  show ?thesis
    unfolding a b
    using messages_nonempty(2,4)
    by (simp add: textless_response_settled c d e f)
qed

section \<open>Adding hives and inspections\<close>

lemma localStorage_render [simp]:
  "localStorage (renderHivesView getTime w) = localStorage w"
  by (simp add: renderHivesView_def)

lemma hives_render:
  "hives (state (renderHivesView getTime w)) = map (sort_reports getTime) (hives (state w))"
  by (simp add: renderHivesView_def)

lemma state_render:
  "state (renderHivesView getTime w) =
     (state w)\<lparr>hives := map (sort_reports getTime) (hives (state w))\<rparr>"
  by (simp add: renderHivesView_def)

lemma hives_handleAddHive:
  "hives (state (handleAddHive getTime n l t w)) =
     map (sort_reports getTime) (hives (state w))
     @ [\<lparr>hive_id = ascii ''hive_'' @ number_to_string t, name = n, location = l, reports = []\<rparr>]"
  by (simp add: handleAddHive_def Let_def closeModal_def hives_render saveStateToLocalStorage_def
        sort_reports_def)

lemma reports_sort_reports_empty:
  "reports h = [] \<Longrightarrow> reports (sort_reports getTime h) = []"
  by (simp add: sort_reports_def)

lemma add_hives_invariant:
  assumes "n \<le> length (hives (state w))"
    and "list_all (\<lambda>h. reports h = []) (drop n (hives (state w)))"
  shows "length (hives (state (add_hives getTime w subs))) = length (hives (state w)) + length subs
         \<and> list_all (\<lambda>h. reports h = []) (drop n (hives (state (add_hives getTime w subs))))"
  using assms
proof (induction subs arbitrary: w)
  case Nil
  then show ?case by (simp add: add_hives_def)
next
  case (Cons sub subs)
  obtain nm l t where sub: "sub = (nm, l, t)" by (cases sub)
  let ?w = "handleAddHive getTime nm l t w"
  have step: "add_hives getTime w (sub # subs) = add_hives getTime ?w subs"
    by (simp add: add_hives_def sub)
  have len: "length (hives (state ?w)) = Suc (length (hives (state w)))"
    by (simp add: hives_handleAddHive)
  have "list_all (\<lambda>h. reports h = []) (drop n (map (sort_reports getTime) (hives (state w))))"
    using Cons.prems(2)
    by (simp add: drop_map list_all_iff reports_sort_reports_empty)
  then have emp: "list_all (\<lambda>h. reports h = []) (drop n (hives (state ?w)))"
    using Cons.prems(1) by (simp add: hives_handleAddHive)
  have "n \<le> length (hives (state ?w))" using Cons.prems(1) len by simp
  from Cons.IH [OF this emp] show ?case
    unfolding step using len by simp
qed

text \<open>
  C2. After any sequence of add-hive submissions, from any state, the store has as many
  hives as it had plus one for each submission, and each hive added has no report.
\<close>

theorem add_hives_count_and_empty_reports:
  "length (hives (state (add_hives getTime w subs))) = length (hives (state w)) + length subs
   \<and> map reports (drop (length (hives (state w))) (hives (state (add_hives getTime w subs))))
       = replicate (length subs) []"
proof -
  let ?hs = "hives (state (add_hives getTime w subs))"
  let ?n = "length (hives (state w))"
  have inv: "length ?hs = ?n + length subs
             \<and> list_all (\<lambda>h. reports h = []) (drop ?n ?hs)"
    by (rule add_hives_invariant) simp_all
  then have "\<forall>x \<in> set (map reports (drop ?n ?hs)). x = []"
    by (auto simp: list_all_iff)
  moreover have "length (map reports (drop ?n ?hs)) = length subs"
    using inv by simp
  ultimately have "map reports (drop ?n ?hs) = replicate (length subs) []"
    by (metis replicate_eqI)
  with inv show ?thesis by simp
qed

lemma find_None_hive_ids:
  "hiveId \<notin> set (hive_ids st) \<Longrightarrow> find (\<lambda>h. hive_id h = hiveId) (hives st) = None"
  by (auto simp: hive_ids_def find_None_iff)

text \<open>
  C5. An inspection submitted for a hive identifier that no hive of the store has makes the
  handler return at once: the world after it is the world before it, so no hive has gained a
  report, nothing was written to the storage, and nothing was shown (no alert, no change of
  the document, no console message).
\<close>

theorem inspection_for_missing_hive_changes_nothing:
  assumes "inspection_hive_id form \<notin> set (hive_ids (state w))"
  shows "handleAddInspection getTime clock form w = Inr w"
  using find_None_hive_ids [OF assms] by (simp add: handleAddInspection_def)

theorem inspection_for_missing_hive_changes_nothing_witness:
  "inspection_hive_id example_form \<notin> set (hive_ids (state page_on_load))
   \<and> handleAddInspection iso_getTime first_clock example_form page_on_load = Inr page_on_load"
  using inspection_for_missing_hive_changes_nothing
    [of example_form page_on_load iso_getTime first_clock]
  by (simp add: page_on_load_def hive_ids_def)

section \<open>Sorting by date\<close>

lemma mset_sort_insert: "mset (sort_insert f x ys) = add_mset x (mset ys)"
  by (induction ys) simp_all

lemma mset_Array_sort: "mset (Array_sort f xs) = mset xs"
  by (induction xs) (simp_all add: mset_sort_insert)

lemma set_Array_sort: "set (Array_sort f xs) = set xs"
  using mset_Array_sort [of f xs] by (metis set_mset_mset)

lemma length_Array_sort: "length (Array_sort f xs) = length xs"
  using mset_Array_sort [of f xs] by (metis size_mset)

lemma descending_sorted_wrt: "descending ts = sorted_wrt (\<lambda>a b. b \<le> a) ts"
  by (induction ts rule: descending.induct) (auto intro: order_trans)

lemma compare_valid:
  assumes "valid_date getTime x" "valid_date getTime y"
  shows "SortCompare (by_date_descending getTime) x y \<le> 0
         \<longleftrightarrow> report_time getTime y \<le> report_time getTime x"
  using assms
  by (auto simp: SortCompare_def by_date_descending_def valid_date_def report_time_def
           split: option.splits)

lemma sorted_sort_insert:
  assumes "valid_date getTime x" "list_all (valid_date getTime) ys"
    and "sorted_wrt (\<lambda>a b. report_time getTime b \<le> report_time getTime a) ys"
  shows "sorted_wrt (\<lambda>a b. report_time getTime b \<le> report_time getTime a)
           (sort_insert (by_date_descending getTime) x ys)"
  using assms
proof (induction ys)
  case Nil
  then show ?case by simp
next
  case (Cons y ys)
  have c: "SortCompare (by_date_descending getTime) x y \<le> 0
           \<longleftrightarrow> report_time getTime y \<le> report_time getTime x"
    using Cons.prems by (simp add: compare_valid)
  show ?case
  proof (cases "SortCompare (by_date_descending getTime) x y \<le> 0")
    case True
    then have "report_time getTime y \<le> report_time getTime x" using c by simp
    then show ?thesis using True Cons.prems(3) by auto
  next
    case False
    then have lt: "report_time getTime x \<le> report_time getTime y" using c by simp
    have "sorted_wrt (\<lambda>a b. report_time getTime b \<le> report_time getTime a)
            (sort_insert (by_date_descending getTime) x ys)"
      using Cons by simp
    moreover have "\<forall>z \<in> set (sort_insert (by_date_descending getTime) x ys).
                     report_time getTime z \<le> report_time getTime y"
      using lt Cons.prems(3) mset_sort_insert [of "by_date_descending getTime" x ys]
      by (metis insert_iff set_mset_add_mset_insert set_mset_mset sorted_wrt.simps(2))
    ultimately show ?thesis using False by simp
  qed
qed

lemma sorted_Array_sort:
  assumes "list_all (valid_date getTime) xs"
  shows "sorted_wrt (\<lambda>a b. report_time getTime b \<le> report_time getTime a)
           (Array_sort (by_date_descending getTime) xs)"
  using assms
proof (induction xs)
  case Nil
  then show ?case by simp
next
  case (Cons x xs)
  have "list_all (valid_date getTime) (Array_sort (by_date_descending getTime) xs)"
    using Cons.prems by (simp add: list_all_iff set_Array_sort)
  then show ?case using Cons by (simp add: sorted_sort_insert)
qed

lemma descending_Array_sort:
  assumes "list_all (valid_date getTime) xs"
  shows "descending (map (report_time getTime) (Array_sort (by_date_descending getTime) xs))"
  using sorted_Array_sort [OF assms] by (simp add: descending_sorted_wrt sorted_wrt_map)

text \<open>A list already in descending order is left as it is.\<close>

lemma sort_insert_head:
  assumes "valid_date getTime x" "list_all (valid_date getTime) ys"
    and "sorted_wrt (\<lambda>a b. report_time getTime b \<le> report_time getTime a) (x # ys)"
  shows "sort_insert (by_date_descending getTime) x ys = x # ys"
  using assms by (cases ys) (simp_all add: compare_valid)

lemma Array_sort_sorted:
  assumes "list_all (valid_date getTime) xs"
    and "sorted_wrt (\<lambda>a b. report_time getTime b \<le> report_time getTime a) xs"
  shows "Array_sort (by_date_descending getTime) xs = xs"
  using assms
proof (induction xs)
  case Nil
  then show ?case by simp
next
  case (Cons x xs)
  then have "Array_sort (by_date_descending getTime) xs = xs" by simp
  then show ?case using Cons.prems by (simp add: sort_insert_head)
qed

lemma example_times:
  "iso_getTime (date first_report) = Some 1704067260000"
  "iso_getTime (date second_report) = Some 1704153600000"
  by (simp_all add: first_report_def second_report_def iso_getTime_def ascii_def date_field_def
        is_digit_def days_in_month_def days_from_civil_def is_leap_year_def)

lemma example_sort:
  "Array_sort (by_date_descending iso_getTime) [first_report, second_report]
     = [second_report, first_report]"
  "Array_sort (by_date_descending iso_getTime) [first_report] = [first_report]"
  by (simp_all add: SortCompare_def by_date_descending_def example_times)

text \<open>
  C9. The card of a hive shows the reports of that hive, all of them, in descending order of
  their dates, whatever their order in the store; the hive list is made of the cards of the
  hives of the state. A date is compared by its time value, so the reports are taken to have
  dates that the platform can read, as every date written by the inspection handler is.
\<close>

theorem hive_card_reports_descending:
  assumes "list_all (valid_date getTime) (reports h)"
  shows "descending (map (report_time getTime) (card_reports (render_card getTime h)))
         \<and> mset (card_reports (render_card getTime h)) = mset (reports h)
         \<and> card_hive_id (render_card getTime h) = hive_id h
         \<and> hives_list (document (renderHivesView getTime w))
             = (if hives (state w) = [] then NoHivesMessage
                else Cards (map (render_card getTime) (hives (state w))))"
  using descending_Array_sort [OF assms]
  by (simp add: render_card_def sort_reports_def mset_Array_sort renderHivesView_def)

theorem hive_card_reports_descending_witness:
  "list_all (valid_date iso_getTime) (reports (example_hive [first_report, second_report]))
   \<and> card_reports (render_card iso_getTime (example_hive [first_report, second_report]))
       = [second_report, first_report]
   \<and> descending (map (report_time iso_getTime)
        (card_reports (render_card iso_getTime (example_hive [first_report, second_report]))))"
  using hive_card_reports_descending
    [of iso_getTime "example_hive [first_report, second_report]" page_on_load]
  by (simp add: example_hive_def valid_date_def example_times render_card_def sort_reports_def
        example_sort del: Array_sort.simps)

lemma map_fixed_point:
  assumes "map f xs = xs" "x \<in> set xs"
  shows "f x = x"
  using assms by (induction xs) auto

text \<open>
  C10. Rendering the hive list writes to the store: the state after \<open>renderHivesView\<close> has,
  for each hive, the reports sorted by descending date in place of the reports as they were.
  For a hive whose dates the platform can read, the stored reports are then in descending
  order and are the same reports; and unless they were in descending order already, the
  state after rendering is not the state before it, so the order of insertion is gone.
\<close>

theorem rendering_sorts_stored_reports:
  assumes "h \<in> set (hives (state w))" and "list_all (valid_date getTime) (reports h)"
  shows "state (renderHivesView getTime w)
           = (state w)\<lparr>hives := map (sort_reports getTime) (hives (state w))\<rparr>
         \<and> reports (sort_reports getTime h)
             = Array_sort (by_date_descending getTime) (reports h)
         \<and> descending (map (report_time getTime) (reports (sort_reports getTime h)))
         \<and> mset (reports (sort_reports getTime h)) = mset (reports h)
         \<and> (descending (map (report_time getTime) (reports h))
             \<or> state (renderHivesView getTime w) \<noteq> state w)"
proof -
  have st: "state (renderHivesView getTime w)
              = (state w)\<lparr>hives := map (sort_reports getTime) (hives (state w))\<rparr>"
    by (simp add: renderHivesView_def)
  have d: "descending (map (report_time getTime) (reports (sort_reports getTime h)))"
    using descending_Array_sort [OF assms(2)] by (simp add: sort_reports_def)
  have "descending (map (report_time getTime) (reports h))"
    if same: "state (renderHivesView getTime w) = state w"
  proof -
    have "hives (state (renderHivesView getTime w)) = hives (state w)" using same by simp
    then have "map (sort_reports getTime) (hives (state w)) = hives (state w)"
      by (simp add: st)
    then have "sort_reports getTime h = h" using assms(1) by (rule map_fixed_point)
    with d show ?thesis by simp
  qed
  then show ?thesis using st d by (auto simp: sort_reports_def mset_Array_sort)
qed

theorem rendering_sorts_stored_reports_witness:
  "example_hive [first_report, second_report]
     \<in> set (hives (state (world_with_hives [example_hive [first_report, second_report]])))
   \<and> list_all (valid_date iso_getTime) (reports (example_hive [first_report, second_report]))
   \<and> hives (state (renderHivesView iso_getTime
        (world_with_hives [example_hive [first_report, second_report]])))
       = [example_hive [second_report, first_report]]
   \<and> state (renderHivesView iso_getTime
        (world_with_hives [example_hive [first_report, second_report]]))
       \<noteq> state (world_with_hives [example_hive [first_report, second_report]])"
proof -
  let ?h = "example_hive [first_report, second_report]"
  let ?w = "world_with_hives [?h]"
  have m: "?h \<in> set (hives (state ?w))"
    by (simp add: world_with_hives_def)
  have v: "list_all (valid_date iso_getTime) (reports ?h)"
    by (simp add: example_hive_def valid_date_def example_times)
  have nd: "\<not> descending (map (report_time iso_getTime) (reports ?h))"
    by (simp add: example_hive_def report_time_def example_times)
  have s: "hives (state (renderHivesView iso_getTime ?w)) = [example_hive [second_report, first_report]]"
    by (simp add: renderHivesView_def world_with_hives_def sort_reports_def example_hive_def
          example_sort del: Array_sort.simps)
  from rendering_sorts_stored_reports [OF m v] nd
  have "state (renderHivesView iso_getTime ?w) \<noteq> state ?w" by blast
  with m v s show ?thesis by blast
qed

section \<open>What an inspection adds\<close>

lemma target_index_found:
  assumes "hiveId \<in> set (map hive_id hs)"
  shows "target_index hiveId hs < length hs"
    and "hive_id (hs ! target_index hiveId hs) = hiveId"
proof -
  show "target_index hiveId hs < length hs"
    unfolding target_index_def using assms by (induction hs) auto
  then show "hive_id (hs ! target_index hiveId hs) = hiveId"
    unfolding target_index_def using nth_length_takeWhile [of "\<lambda>h. hive_id h \<noteq> hiveId" hs]
    by blast
qed

lemma push_report_update:
  assumes "hiveId \<in> set (map hive_id hs)"
  shows "push_report hiveId r hs =
           hs[target_index hiveId hs :=
                (hs ! target_index hiveId hs)
                  \<lparr>reports := reports (hs ! target_index hiveId hs) @ [r]\<rparr>]"
  using assms by (induction hs) (auto simp: target_index_def)

lemma push_report_missing:
  "hiveId \<notin> set (map hive_id hs) \<Longrightarrow> push_report hiveId r hs = hs"
  by (induction hs) auto

lemma hive_id_push_report: "map hive_id (push_report hiveId r hs) = map hive_id hs"
  by (induction hs) auto

lemma hive_id_sort_reports: "map hive_id (map (sort_reports getTime) hs) = map hive_id hs"
  by (simp add: sort_reports_def)

lemma find_hive_Some:
  assumes "hiveId \<in> set (map hive_id hs)"
  shows "\<exists>h. find (\<lambda>h. hive_id h = hiveId) hs = Some h"
  using assms by (induction hs) auto

lemma newReport_checked:
  assumes "queen_checked form = Some q" "disease_checked form = Some d"
    and "eggs_checked form = Some e" "feeding_checked form = Some f"
  shows "newReport clock form =
           Inr \<lparr>report_id = ascii ''report_'' @ number_to_string (now_ms clock),
                date = now_iso clock, queen = q, disease = d, eggs = e,
                honeyStores = honey_stores form, feeding = f,
                feedingAmount = Some (feeding_amount form),
                report_notes = Some (general_notes form)\<rparr>"
  using assms by (simp add: newReport_def checked_value_def)

lemma handleAddInspection_found:
  assumes "inspection_hive_id form \<in> set (hive_ids (state w))"
    and "newReport clock form = Inr r"
  shows "\<exists>w'. handleAddInspection getTime clock form w = Inr w'
           \<and> state w' = (state w)\<lparr>hives := map (sort_reports getTime)
                 (push_report (inspection_hive_id form) r (hives (state w)))\<rparr>
           \<and> persisted_state w' = Some ((state w)\<lparr>hives :=
                 push_report (inspection_hive_id form) r (hives (state w))\<rparr>)"
proof -
  let ?id = "inspection_hive_id form"
  let ?w1 = "w\<lparr>state := (state w)\<lparr>hives := push_report ?id r (hives (state w))\<rparr>\<rparr>"
  obtain h where h: "find (\<lambda>h. hive_id h = ?id) (hives (state w)) = Some h"
    using find_hive_Some [of ?id "hives (state w)"] assms(1) by (auto simp: hive_ids_def)
  have p: "persisted_state (saveStateToLocalStorage ?w1) = Some (state ?w1)"
    by (rule persisted_state_save)
  have q: "persisted_state (v\<lparr>document := dd\<rparr>) = persisted_state v" for v :: World and dd
    by (simp add: persisted_state_def)
  have q': "persisted_state (renderHivesView getTime v) = persisted_state v" for v
    by (simp add: persisted_state_def)
  have s: "state (saveStateToLocalStorage ?w1) = state ?w1"
    by (simp add: saveStateToLocalStorage_def)
  show ?thesis
    using p
    by (simp add: handleAddInspection_def Let_def h assms(2) closeModal_def q q' s state_render)
qed

lemma handleAddInspection_error:
  assumes "newReport clock form = Inl e"
  shows "handleAddInspection getTime clock form w = Inr w
         \<or> handleAddInspection getTime clock form w = Inl e"
  using assms by (simp add: handleAddInspection_def Let_def split: option.splits)

text \<open>
  C3. An inspection submitted for a hive of the store, with a button checked in each of the
  four radio groups, appends one report: the report counts of the hives are those of before
  with one more for the hive found (the first with the identifier), whose reports are the
  former ones and the new report. The new report has the date and the identifier of the
  submission and the values of the form: queen, disease, eggs, honey stores and feeding,
  and the two texts.
\<close>

theorem add_inspection_appends_report:
  assumes "inspection_hive_id form \<in> set (hive_ids (state w))"
    and "queen_checked form = Some q" "disease_checked form = Some d"
    and "eggs_checked form = Some e" "feeding_checked form = Some f"
  shows "\<exists>w'. handleAddInspection getTime clock form w = Inr w'
           \<and> map (\<lambda>h. length (reports h)) (hives (state w'))
               = (map (\<lambda>h. length (reports h)) (hives (state w)))
                   [target_index (inspection_hive_id form) (hives (state w)) :=
                      Suc (length (reports (hives (state w)
                             ! target_index (inspection_hive_id form) (hives (state w)))))]
           \<and> hive_id (hives (state w') ! target_index (inspection_hive_id form) (hives (state w)))
               = inspection_hive_id form
           \<and> mset (reports (hives (state w')
                             ! target_index (inspection_hive_id form) (hives (state w))))
               = add_mset
                   \<lparr>report_id = ascii ''report_'' @ number_to_string (now_ms clock),
                    date = now_iso clock, queen = q, disease = d, eggs = e,
                    honeyStores = honey_stores form, feeding = f,
                    feedingAmount = Some (feeding_amount form),
                    report_notes = Some (general_notes form)\<rparr>
                   (mset (reports (hives (state w)
                             ! target_index (inspection_hive_id form) (hives (state w)))))"
proof -
  let ?id = "inspection_hive_id form"
  let ?hs = "hives (state w)"
  let ?i = "target_index ?id ?hs"
  let ?r = "\<lparr>report_id = ascii ''report_'' @ number_to_string (now_ms clock),
             date = now_iso clock, queen = q, disease = d, eggs = e,
             honeyStores = honey_stores form, feeding = f,
             feedingAmount = Some (feeding_amount form),
             report_notes = Some (general_notes form)\<rparr>"
  have mem: "?id \<in> set (map hive_id ?hs)" using assms(1) by (simp add: hive_ids_def)
  have i: "?i < length ?hs" and idi: "hive_id (?hs ! ?i) = ?id"
    using target_index_found [OF mem] by simp_all
  have nr: "newReport clock form = Inr ?r"
    using assms(2-5) by (rule newReport_checked)
  obtain w' where w': "handleAddInspection getTime clock form w = Inr w'"
    and st: "state w' = (state w)\<lparr>hives := map (sort_reports getTime) (push_report ?id ?r ?hs)\<rparr>"
    using handleAddInspection_found [OF assms(1) nr] by blast
  let ?h' = "(?hs ! ?i)\<lparr>reports := reports (?hs ! ?i) @ [?r]\<rparr>"
  have hs': "hives (state w') = (map (sort_reports getTime) ?hs)[?i := sort_reports getTime ?h']"
    by (simp add: st push_report_update [OF mem] map_update)
  have counts: "map (\<lambda>h. length (reports h)) (hives (state w'))
                  = (map (\<lambda>h. length (reports h)) ?hs)[?i := Suc (length (reports (?hs ! ?i)))]"
    by (simp add: hs' map_update sort_reports_def length_Array_sort comp_def)
  have at: "hives (state w') ! ?i = sort_reports getTime ?h'"
    using i by (simp add: hs')
  have "hive_id (hives (state w') ! ?i) = ?id"
    by (simp add: at sort_reports_def idi)
  moreover have "mset (reports (hives (state w') ! ?i)) = add_mset ?r (mset (reports (?hs ! ?i)))"
    by (simp add: at sort_reports_def mset_Array_sort)
  ultimately show ?thesis using w' counts by blast
qed

theorem add_inspection_appends_report_witness:
  "inspection_hive_id example_form \<in> set (hive_ids (state (world_with_hives [example_hive []])))
   \<and> queen_checked example_form = Some Yes \<and> disease_checked example_form = Some No
   \<and> eggs_checked example_form = Some Yes \<and> feeding_checked example_form = Some No
   \<and> (\<exists>w'. handleAddInspection iso_getTime first_clock example_form
               (world_with_hives [example_hive []]) = Inr w'
          \<and> map (\<lambda>h. length (reports h)) (hives (state w')) = [1]
          \<and> mset (reports (hives (state w') ! 0)) = {#first_report#})"
proof -
  let ?w = "world_with_hives [example_hive []]"
  have m: "inspection_hive_id example_form \<in> set (hive_ids (state ?w))"
    by (simp add: example_form_def world_with_hives_def hive_ids_def example_hive_def)
  have c: "queen_checked example_form = Some Yes" "disease_checked example_form = Some No"
    "eggs_checked example_form = Some Yes" "feeding_checked example_form = Some No"
    by (simp_all add: example_form_def)
  have t: "target_index (inspection_hive_id example_form) (hives (state ?w)) = 0"
    by (simp add: target_index_def example_form_def world_with_hives_def example_hive_def)
  have r: "\<lparr>report_id = ascii ''report_'' @ number_to_string (now_ms first_clock),
            date = now_iso first_clock, queen = Yes, disease = No, eggs = Yes,
            honeyStores = honey_stores example_form, feeding = No,
            feedingAmount = Some (feeding_amount example_form),
            report_notes = Some (general_notes example_form)\<rparr> = first_report"
    by (simp add: first_report_def first_clock_def example_form_def number_to_string_def ascii_def)
  have h: "hives (state ?w) = [example_hive []]" "reports (example_hive []) = []"
    by (simp_all add: world_with_hives_def example_hive_def)
  from add_inspection_appends_report [OF m c, of iso_getTime first_clock]
  obtain w' where
    "handleAddInspection iso_getTime first_clock example_form ?w = Inr w'"
    "map (\<lambda>h. length (reports h)) (hives (state w')) = [1]"
    "mset (reports (hives (state w') ! 0)) = {#first_report#}"
    unfolding t r by (auto simp: h)
  then have "\<exists>w'. handleAddInspection iso_getTime first_clock example_form ?w = Inr w'
          \<and> map (\<lambda>h. length (reports h)) (hives (state w')) = [1]
          \<and> mset (reports (hives (state w') ! 0)) = {#first_report#}"
    by (intro exI [of _ w'] conjI)
  with m c show ?thesis by (intro conjI)
qed

section \<open>Identifiers\<close>

lemma unat_digit:
  assumes "k < 10"
  shows "unat (of_nat (48 + k) :: 16 word) = 48 + k"
  using assms by (simp only: unat_of_nat) simp

lemma digits_value: "foldl (\<lambda>a c. 10 * a + (unat c - 48)) 0 (digits n) = n"
proof (induction n rule: digits.induct)
  case (1 n)
  show ?case
  proof (cases "n < 10")
    case True
    then have "digits n = [of_nat (48 + n)]" by (subst digits.simps) simp
    then show ?thesis using unat_digit [OF True] by (simp del: digits.simps of_nat_add)
  next
    case False
    then have d: "digits n = digits (n div 10) @ [of_nat (48 + n mod 10)]"
      by (subst digits.simps) simp
    have "n mod 10 < 10" by simp
    then have u: "unat (of_nat (48 + n mod 10) :: 16 word) = 48 + n mod 10"
      by (rule unat_digit)
    have "foldl (\<lambda>a c. 10 * a + (unat c - 48)) 0 (digits n) = 10 * (n div 10) + n mod 10"
      unfolding d using 1 [OF False] u by (simp del: digits.simps of_nat_add)
    then show ?thesis by simp
  qed
qed

lemma digits_inj: "digits m = digits n \<Longrightarrow> m = n"
  by (metis digits_value)

lemma digits_no_minus: "0x2D \<notin> set (digits n)"
proof (induction n rule: digits.induct)
  case (1 n)
  have ne: "(of_nat (48 + k) :: 16 word) \<noteq> 0x2D" if "k < 10" for k
  proof
    assume "(of_nat (48 + k) :: 16 word) = 0x2D"
    then have "unat (of_nat (48 + k) :: 16 word) = unat (0x2D :: 16 word)" by (rule arg_cong)
    then show False using unat_digit [OF that] by simp
  qed
  show ?case
  proof (cases "n < 10")
    case True
    then have "digits n = [of_nat (48 + n)]" by (subst digits.simps) simp
    then show ?thesis using ne [OF True] by (simp del: digits.simps of_nat_add)
  next
    case False
    then have d: "digits n = digits (n div 10) @ [of_nat (48 + n mod 10)]"
      by (subst digits.simps) simp
    have "(of_nat (48 + n mod 10) :: 16 word) \<noteq> 0x2D" by (rule ne) simp
    then show ?thesis
      unfolding d using 1 [OF False] by (simp del: digits.simps of_nat_add)
  qed
qed

lemma digits_nonempty: "digits n \<noteq> []"
  by (subst digits.simps) simp

lemma number_to_string_inj:
  assumes "number_to_string i = number_to_string j"
  shows "i = j"
proof (cases "i < 0"; cases "j < 0")
  assume "i < 0" "j < 0"
  then have "digits (nat (- i)) = digits (nat (- j))"
    using assms by (simp add: number_to_string_def del: digits.simps)
  then have "nat (- i) = nat (- j)" by (rule digits_inj)
  then show ?thesis using \<open>i < 0\<close> \<open>j < 0\<close> by simp
next
  assume "i < 0" "\<not> j < 0"
  then have "0x2D # digits (nat (- i)) = digits (nat j)"
    using assms by (simp add: number_to_string_def del: digits.simps)
  then have "0x2D \<in> set (digits (nat j))" by (metis list.set_intros(1))
  then show ?thesis using digits_no_minus by blast
next
  assume "\<not> i < 0" "j < 0"
  then have "digits (nat i) = 0x2D # digits (nat (- j))"
    using assms by (simp add: number_to_string_def del: digits.simps)
  then have "0x2D \<in> set (digits (nat i))" by (metis list.set_intros(1))
  then show ?thesis using digits_no_minus by blast
next
  assume "\<not> i < 0" "\<not> j < 0"
  then have "digits (nat i) = digits (nat j)"
    using assms by (simp add: number_to_string_def del: digits.simps)
  then have "nat i = nat j" by (rule digits_inj)
  then show ?thesis using \<open>\<not> i < 0\<close> \<open>\<not> j < 0\<close> by simp
qed

lemma distinct_names:
  assumes "distinct ts"
  shows "distinct (map (\<lambda>t. p @ number_to_string t) ts)"
proof -
  have "inj_on (\<lambda>t. p @ number_to_string t) (set ts)"
    by (rule inj_onI) (simp add: number_to_string_inj)
  with assms show ?thesis by (simp add: distinct_map)
qed

lemma distinct_sub_mset:
  assumes "mset xs \<subseteq># mset ys" and "distinct ys"
  shows "distinct xs"
proof -
  have "count (mset xs) a = (if a \<in> set xs then 1 else 0)" for a
  proof (cases "a \<in> set xs")
    case True
    then have "0 < count (mset xs) a" by simp
    moreover have "count (mset xs) a \<le> count (mset ys) a"
      using assms(1) by (rule mset_subset_eq_count)
    moreover have "count (mset ys) a \<le> 1"
      using assms(2) by (simp add: distinct_count_atmost_1)
    ultimately have "count (mset xs) a = 1" by linarith
    then show ?thesis using True by simp
  next
    case False
    then show ?thesis by simp
  qed
  then show ?thesis by (simp add: distinct_count_atmost_1)
qed

subsection \<open>The identifiers in the store after a run\<close>

lemma handleAddInspection_missing:
  assumes "inspection_hive_id form \<notin> set (hive_ids (state w))"
  shows "handleAddInspection getTime clock form w = Inr w"
  using find_None_hive_ids [OF assms] by (simp add: handleAddInspection_def)

lemma step_inspection_found:
  assumes "inspection_hive_id form \<in> set (hive_ids (state w))"
    and "newReport clock form = Inr r"
  shows "state (step getTime w (AddInspection clock form))
           = (state w)\<lparr>hives := map (sort_reports getTime)
                 (push_report (inspection_hive_id form) r (hives (state w)))\<rparr>"
    and "persisted_state (step getTime w (AddInspection clock form))
           = Some ((state w)\<lparr>hives :=
                 push_report (inspection_hive_id form) r (hives (state w))\<rparr>)"
  using handleAddInspection_found [OF assms, of getTime] by auto

lemma step_inspection_cases:
  "state (step getTime w (AddInspection clock form)) = state w
   \<or> (\<exists>r. newReport clock form = Inr r
          \<and> inspection_hive_id form \<in> set (hive_ids (state w))
          \<and> state (step getTime w (AddInspection clock form))
              = (state w)\<lparr>hives := map (sort_reports getTime)
                    (push_report (inspection_hive_id form) r (hives (state w)))\<rparr>)"
proof (cases "inspection_hive_id form \<in> set (hive_ids (state w))")
  case False
  then show ?thesis by (simp add: handleAddInspection_missing)
next
  case True
  show ?thesis
  proof (cases "newReport clock form")
    case (Inl e)
    then show ?thesis
      using handleAddInspection_error [OF Inl, of getTime w] by auto
  next
    case (Inr r)
    then show ?thesis using step_inspection_found(1) [OF True Inr] True by blast
  qed
qed

lemma state_handleAddHive:
  "state (handleAddHive getTime n l t w) =
     (state w)\<lparr>hives := map (sort_reports getTime) (hives (state w))
       @ [\<lparr>hive_id = ascii ''hive_'' @ number_to_string t, name = n, location = l,
           reports = []\<rparr>]\<rparr>"
  by (simp add: handleAddHive_def Let_def closeModal_def state_render saveStateToLocalStorage_def
        sort_reports_def)

lemma persisted_state_handleAddHive:
  "persisted_state (handleAddHive getTime n l t w) =
     Some ((state w)\<lparr>hives := hives (state w)
       @ [\<lparr>hive_id = ascii ''hive_'' @ number_to_string t, name = n, location = l,
           reports = []\<rparr>]\<rparr>)"
proof -
  let ?w1 = "w\<lparr>state := (state w)\<lparr>hives := hives (state w)
       @ [\<lparr>hive_id = ascii ''hive_'' @ number_to_string t, name = n, location = l,
           reports = []\<rparr>]\<rparr>\<rparr>"
  have p: "persisted_state (saveStateToLocalStorage ?w1) = Some (state ?w1)"
    by (rule persisted_state_save)
  have q: "persisted_state (v\<lparr>document := dd\<rparr>) = persisted_state v" for v :: World and dd
    by (simp add: persisted_state_def)
  have q': "persisted_state (renderHivesView getTime v) = persisted_state v" for v
    by (simp add: persisted_state_def)
  show ?thesis
    using p by (simp add: handleAddHive_def Let_def closeModal_def q q')
qed

lemma hive_ids_step:
  "hive_ids (state (step getTime w a)) =
     hive_ids (state w) @ map (\<lambda>t. ascii ''hive_'' @ number_to_string t) (hive_times [a])"
proof (cases a)
  case (AddHive n l t)
  then show ?thesis
    by (simp add: hive_ids_def hives_handleAddHive sort_reports_def comp_def)
next
  case (AddInspection clock form)
  from step_inspection_cases [of getTime w clock form]
  have "hive_ids (state (step getTime w (AddInspection clock form))) = hive_ids (state w)"
    by (auto simp: hive_ids_def hive_id_push_report sort_reports_def comp_def)
  then show ?thesis using AddInspection by simp
qed

lemma hive_times_Cons: "hive_times (a # acts) = hive_times [a] @ hive_times acts"
  by (cases a) simp_all

lemma report_times_Cons: "report_times (a # acts) = report_times [a] @ report_times acts"
  by (cases a) simp_all

lemma hive_ids_run:
  "hive_ids (state (run getTime w acts)) =
     hive_ids (state w) @ map (\<lambda>t. ascii ''hive_'' @ number_to_string t) (hive_times acts)"
proof (induction acts arbitrary: w)
  case Nil
  then show ?case by (simp add: run_def)
next
  case (Cons a acts)
  have "run getTime w (a # acts) = run getTime (step getTime w a) acts"
    by (simp add: run_def)
  then show ?case
    using Cons [of "step getTime w a"] hive_ids_step [of getTime w a]
    by (simp add: hive_times_Cons [of a acts])
qed

lemma mset_reports_sorted:
  "mset (concat (map reports (map (sort_reports getTime) hs))) = mset (concat (map reports hs))"
  by (induction hs) (simp_all add: sort_reports_def mset_Array_sort)

lemma mset_reports_pushed:
  assumes "hiveId \<in> set (map hive_id hs)"
  shows "mset (concat (map reports (push_report hiveId r hs)))
           = add_mset r (mset (concat (map reports hs)))"
  using assms by (induction hs) auto

lemma report_id_newReport:
  assumes "newReport clock form = Inr r"
  shows "report_id r = ascii ''report_'' @ number_to_string (now_ms clock)"
  using assms by (auto simp: newReport_def split: sum.splits)

lemma report_ids_step:
  "mset (report_ids (state (step getTime w a))) \<subseteq>#
     mset (report_ids (state w))
     + mset (map (\<lambda>t. ascii ''report_'' @ number_to_string t) (report_times [a]))"
proof (cases a)
  case (AddHive n l t)
  have "mset (all_reports (state (handleAddHive getTime n l t w))) = mset (all_reports (state w))"
    using mset_reports_sorted [of getTime "hives (state w)"]
    by (simp add: all_reports_def hives_handleAddHive)
  then have "image_mset report_id (mset (all_reports (state (handleAddHive getTime n l t w))))
               = image_mset report_id (mset (all_reports (state w)))"
    by (rule arg_cong)
  then have "mset (report_ids (state (step getTime w a))) = mset (report_ids (state w))"
    using AddHive by (simp add: report_ids_def)
  then show ?thesis using AddHive by simp
next
  case (AddInspection clock form)
  from step_inspection_cases [of getTime w clock form]
  show ?thesis
  proof
    assume "state (step getTime w (AddInspection clock form)) = state w"
    then show ?thesis using AddInspection by simp
  next
    assume "\<exists>r. newReport clock form = Inr r
          \<and> inspection_hive_id form \<in> set (hive_ids (state w))
          \<and> state (step getTime w (AddInspection clock form))
              = (state w)\<lparr>hives := map (sort_reports getTime)
                    (push_report (inspection_hive_id form) r (hives (state w)))\<rparr>"
    then obtain r where r: "newReport clock form = Inr r"
      and m: "inspection_hive_id form \<in> set (map hive_id (hives (state w)))"
      and st: "state (step getTime w (AddInspection clock form))
              = (state w)\<lparr>hives := map (sort_reports getTime)
                    (push_report (inspection_hive_id form) r (hives (state w)))\<rparr>"
      by (auto simp: hive_ids_def)
    have "mset (all_reports (state (step getTime w (AddInspection clock form))))
            = add_mset r (mset (all_reports (state w)))"
      using mset_reports_sorted
              [of getTime "push_report (inspection_hive_id form) r (hives (state w))"]
            mset_reports_pushed [OF m, of r]
      unfolding st all_reports_def by simp
    then have "image_mset report_id
                 (mset (all_reports (state (step getTime w (AddInspection clock form)))))
            = image_mset report_id (add_mset r (mset (all_reports (state w))))"
      by (rule arg_cong)
    then have "mset (report_ids (state (step getTime w (AddInspection clock form))))
            = add_mset (report_id r) (mset (report_ids (state w)))"
      by (simp add: report_ids_def)
    then show ?thesis
      using AddInspection report_id_newReport [OF r] by simp
  qed
qed

lemma report_ids_run:
  "mset (report_ids (state (run getTime w acts))) \<subseteq>#
     mset (report_ids (state w))
     + mset (map (\<lambda>t. ascii ''report_'' @ number_to_string t) (report_times acts))"
proof (induction acts arbitrary: w)
  case Nil
  then show ?case by (simp add: run_def)
next
  case (Cons a acts)
  let ?n = "\<lambda>t. ascii ''report_'' @ number_to_string t"
  have run: "run getTime w (a # acts) = run getTime (step getTime w a) acts"
    by (simp add: run_def)
  have "mset (report_ids (state (run getTime (step getTime w a) acts))) \<subseteq>#
          mset (report_ids (state (step getTime w a))) + mset (map ?n (report_times acts))"
    by (rule Cons)
  also have "\<dots> \<subseteq># (mset (report_ids (state w)) + mset (map ?n (report_times [a])))
                    + mset (map ?n (report_times acts))"
    using report_ids_step [of getTime w a] by (simp only: mset_subset_eq_mono_add_right_cancel)
  also have "\<dots> = mset (report_ids (state w)) + mset (map ?n (report_times (a # acts)))"
    by (simp add: report_times_Cons [of a acts])
  finally show ?case unfolding run .
qed

text \<open>
  C4, as the code has it. The identifiers are the clock readings in decimal behind a prefix.
  From a store without hives, after any sequence of add-hive and add-inspection actions in
  which no two hives are created at the same clock reading and no two reports are, the hive
  identifiers are pairwise different and so are the report identifiers.
\<close>

theorem identifiers_unique_for_distinct_times:
  assumes "hives (state w) = []"
    and "distinct (hive_times acts)" and "distinct (report_times acts)"
  shows "distinct (hive_ids (state (run getTime w acts)))
         \<and> distinct (report_ids (state (run getTime w acts)))"
proof -
  have "hive_ids (state (run getTime w acts))
          = map (\<lambda>t. ascii ''hive_'' @ number_to_string t) (hive_times acts)"
    using hive_ids_run [of getTime w acts] assms(1) by (simp add: hive_ids_def)
  then have h: "distinct (hive_ids (state (run getTime w acts)))"
    using distinct_names [OF assms(2)] by simp
  have "mset (report_ids (state (run getTime w acts))) \<subseteq>#
          mset (map (\<lambda>t. ascii ''report_'' @ number_to_string t) (report_times acts))"
    using report_ids_run [of getTime w acts] assms(1)
    by (simp add: report_ids_def all_reports_def)
  then have "distinct (report_ids (state (run getTime w acts)))"
    using distinct_names [OF assms(3)] by (rule distinct_sub_mset)
  with h show ?thesis by simp
qed

theorem identifiers_unique_for_distinct_times_witness:
  "hives (state page_on_load) = []
   \<and> distinct (hive_times beekeeper_actions) \<and> distinct (report_times beekeeper_actions)
   \<and> distinct (hive_ids (state (run iso_getTime page_on_load beekeeper_actions)))
   \<and> distinct (report_ids (state (run iso_getTime page_on_load beekeeper_actions)))"
proof -
  have a: "hives (state page_on_load) = []" by (simp add: page_on_load_def)
  have b: "distinct (hive_times beekeeper_actions)" by (simp add: beekeeper_actions_def)
  have c: "distinct (report_times beekeeper_actions)"
    by (simp add: beekeeper_actions_def first_clock_def second_clock_def)
  from identifiers_unique_for_distinct_times [OF a b c, of iso_getTime] a b c
  show ?thesis by (intro conjI) simp_all
qed

text \<open>
  Two hives created at the same clock reading have the same identifier: the claim of C4
  that identifiers are unique also for two creations within one millisecond fails.
\<close>

theorem same_millisecond_hives_share_identifier:
  "\<not> distinct (hive_ids (state (run iso_getTime page_on_load
        [AddHive (ascii ''Linden'') (ascii ''Quba'') 1704067200000,
         AddHive (ascii ''Oak'') (ascii ''Quba'') 1704067200000])))"
  by (simp add: hive_ids_run)

section \<open>The stored text and the state in memory\<close>

lemma example_newReport:
  "newReport first_clock example_form = Inr first_report"
  "newReport second_clock example_form = Inr second_report"
  by (simp_all add: newReport_def checked_value_def example_form_def first_clock_def
        second_clock_def first_report_def second_report_def number_to_string_def ascii_def)

lemma example_new_hive:
  "\<lparr>hive_id = ascii ''hive_'' @ number_to_string 1704067200000, name = ascii ''Linden'',
    location = ascii ''Quba'', reports = []\<rparr> = example_hive []"
  by (simp add: example_hive_def number_to_string_def ascii_def)

lemma example_push:
  "push_report (inspection_hive_id example_form) r [example_hive rs] = [example_hive (rs @ [r])]"
  by (simp add: example_form_def example_hive_def)

lemma example_sort_hive:
  "sort_reports getTime (example_hive rs)
     = example_hive (Array_sort (by_date_descending getTime) rs)"
  by (simp add: sort_reports_def example_hive_def)

lemma example_run_states:
  "state (run iso_getTime page_on_load beekeeper_actions)
     = \<lparr>hives = [example_hive [second_report, first_report]]\<rparr>"
  "persisted_state (run iso_getTime page_on_load beekeeper_actions)
     = Some \<lparr>hives = [example_hive [first_report, second_report]]\<rparr>"
proof -
  let ?a1 = "AddHive (ascii ''Linden'') (ascii ''Quba'') 1704067200000"
  let ?w1 = "step iso_getTime page_on_load ?a1"
  let ?w2 = "step iso_getTime ?w1 (AddInspection first_clock example_form)"
  let ?w3 = "step iso_getTime ?w2 (AddInspection second_clock example_form)"
  have s1: "state ?w1 = \<lparr>hives = [example_hive []]\<rparr>"
    by (simp add: state_handleAddHive example_new_hive) (simp add: page_on_load_def)
  have m1: "inspection_hive_id example_form \<in> set (hive_ids (state ?w1))"
    unfolding s1 by (simp add: hive_ids_def example_form_def example_hive_def)
  have s2: "state ?w2 = \<lparr>hives = [example_hive [first_report]]\<rparr>"
    unfolding step_inspection_found(1) [OF m1 example_newReport(1)] s1
    by (simp add: example_push example_sort_hive example_sort
          del: Array_sort.simps push_report.simps)
  have m2: "inspection_hive_id example_form \<in> set (hive_ids (state ?w2))"
    unfolding s2 by (simp add: hive_ids_def example_form_def example_hive_def)
  have s3: "state ?w3 = \<lparr>hives = [example_hive [second_report, first_report]]\<rparr>"
    unfolding step_inspection_found(1) [OF m2 example_newReport(2)] s2
    by (simp add: example_push example_sort_hive example_sort
          del: Array_sort.simps push_report.simps)
  have p3: "persisted_state ?w3 = Some \<lparr>hives = [example_hive [first_report, second_report]]\<rparr>"
    unfolding step_inspection_found(2) [OF m2 example_newReport(2)] s2
    by (simp add: example_push del: push_report.simps)
  have r: "run iso_getTime page_on_load beekeeper_actions = ?w3"
    by (simp add: run_def beekeeper_actions_def)
  show "state (run iso_getTime page_on_load beekeeper_actions)
     = \<lparr>hives = [example_hive [second_report, first_report]]\<rparr>"
    unfolding r by (rule s3)
  show "persisted_state (run iso_getTime page_on_load beekeeper_actions)
     = Some \<lparr>hives = [example_hive [first_report, second_report]]\<rparr>"
    unfolding r by (rule p3)
qed

lemma example_reports_differ: "first_report \<noteq> second_report"
proof
  assume "first_report = second_report"
  then have "date first_report = date second_report" by simp
  then show False by (simp add: first_report_def second_report_def ascii_def)
qed

text \<open>
  C6 at a concrete run. A hive is added and inspected twice, a day apart. When the second
  inspection handler has returned, the stored text holds the reports of the hive in the
  order of insertion, and the state in memory holds them with the later report first: the
  handler saves and then renders, and rendering sorts the reports of the store. The stored
  copy is not the state in memory.
\<close>

theorem stored_copy_differs_after_second_inspection:
  "map reports (hives (state (run iso_getTime page_on_load beekeeper_actions)))
     = [[second_report, first_report]]
   \<and> map_option (\<lambda>st. map reports (hives st))
        (persisted_state (run iso_getTime page_on_load beekeeper_actions))
     = Some [[first_report, second_report]]
   \<and> persisted_state (run iso_getTime page_on_load beekeeper_actions)
     \<noteq> Some (state (run iso_getTime page_on_load beekeeper_actions))"
  using example_reports_differ
  by (simp add: example_run_states example_hive_def)

end
